theory Spec2Isabelle
  imports Complex_Main
begin

section \<open>Python values that the monitor handles\<close>

text \<open>
  The script \<^verbatim>\<open>kr_iphone17pm_silver512_monitor.py\<close> works on the values that
  \<^verbatim>\<open>json.loads\<close> produces. A JSON number is a Python \<^verbatim>\<open>int\<close> or a finite
  \<^verbatim>\<open>float\<close>; a float is represented by its exact rational value. An object is the
  parsed \<^verbatim>\<open>dict\<close>: its keys in insertion order, each key once.
\<close>

datatype json =
    JNull
  | JBool bool
  | JInt int
  | JFloat rat
  | JStr string
  | JArr "json list"
  | JObj "(string \<times> json) list"

text \<open>
  Exceptions are values. The class decides which handler catches the exception;
  \<^verbatim>\<open>requests.exceptions.JSONDecodeError\<close> derives from both
  \<^verbatim>\<open>RequestException\<close> and \<^verbatim>\<open>json.JSONDecodeError\<close>, and
  \<^verbatim>\<open>HTTPError\<close> derives from \<^verbatim>\<open>RequestException\<close>. \<open>TransportError\<close> stands for
  the other subclasses of \<^verbatim>\<open>RequestException\<close> (connection refused, timeout, DNS).
\<close>

datatype exn_class =
    HTTPError
  | TransportError
  | RequestsJSONDecodeError
  | JSONDecodeError
  | AttributeError
  | TypeError
  | ValueError
  | OverflowError
  | OSError

datatype exn = Exn exn_class string

fun exn_class_of :: "exn \<Rightarrow> exn_class" where
  "exn_class_of (Exn c m) = c"

fun exn_text :: "exn \<Rightarrow> string" where
  "exn_text (Exn c m) = m"

definition is_HTTPError :: "exn \<Rightarrow> bool" where
  "is_HTTPError e = (exn_class_of e = HTTPError)"

definition is_RequestException :: "exn \<Rightarrow> bool" where
  "is_RequestException e =
     (exn_class_of e = HTTPError \<or> exn_class_of e = TransportError
      \<or> exn_class_of e = RequestsJSONDecodeError)"

definition is_JSONDecodeError :: "exn \<Rightarrow> bool" where
  "is_JSONDecodeError e =
     (exn_class_of e = JSONDecodeError \<or> exn_class_of e = RequestsJSONDecodeError)"

text \<open>Truth value of a Python object, as \<^verbatim>\<open>or\<close>, \<^verbatim>\<open>not\<close> and \<^verbatim>\<open>if\<close> test it.\<close>

fun truthy :: "json \<Rightarrow> bool" where
  "truthy JNull = False"
| "truthy (JBool b) = b"
| "truthy (JInt i) = (i \<noteq> 0)"
| "truthy (JFloat r) = (r \<noteq> 0)"
| "truthy (JStr s) = (s \<noteq> [])"
| "truthy (JArr xs) = (xs \<noteq> [])"
| "truthy (JObj kvs) = (kvs \<noteq> [])"

definition py_or :: "json \<Rightarrow> json \<Rightarrow> json" where
  "py_or a b = (if truthy a then a else b)"

fun type_name :: "json \<Rightarrow> string" where
  "type_name JNull = ''NoneType''"
| "type_name (JBool b) = ''bool''"
| "type_name (JInt i) = ''int''"
| "type_name (JFloat r) = ''float''"
| "type_name (JStr s) = ''str''"
| "type_name (JArr xs) = ''list''"
| "type_name (JObj kvs) = ''dict''"

definition no_attribute_get :: "json \<Rightarrow> exn" where
  "no_attribute_get v =
     Exn AttributeError ([CHR 0x27] @ type_name v @ [CHR 0x27] @ '' object has no attribute ''
                         @ [CHR 0x27] @ ''get'' @ [CHR 0x27])"

text \<open>
  \<^verbatim>\<open>v.get(k, d)\<close>: only a \<^verbatim>\<open>dict\<close> has the method; on any other value the
  attribute lookup raises. \<^verbatim>\<open>v.get(k)\<close> is \<^verbatim>\<open>v.get(k, None)\<close>.
\<close>

fun py_get_default :: "json \<Rightarrow> string \<Rightarrow> json \<Rightarrow> exn + json" where
  "py_get_default (JObj kvs) k d = Inr (case map_of kvs k of None \<Rightarrow> d | Some v \<Rightarrow> v)"
| "py_get_default v k d = Inl (no_attribute_get v)"

definition py_get :: "json \<Rightarrow> string \<Rightarrow> exn + json" where
  "py_get v k = py_get_default v k JNull"

text \<open>
  \<^verbatim>\<open>for s in v\<close>: a list yields its elements, a dict its keys, a string its
  characters; the other values are not iterable.
\<close>

fun py_iter :: "json \<Rightarrow> exn + json list" where
  "py_iter (JArr xs) = Inr xs"
| "py_iter (JObj kvs) = Inr (map (\<lambda>kv. JStr (fst kv)) kvs)"
| "py_iter (JStr s) = Inr (map (\<lambda>c. JStr [c]) s)"
| "py_iter v = Inl (Exn TypeError ([CHR 0x27] @ type_name v @ [CHR 0x27] @ '' object is not iterable''))"


text \<open>
  Keys of a Python \<^verbatim>\<open>dict\<close>. Lists and dicts are unhashable; \<^verbatim>\<open>True\<close>, \<^verbatim>\<open>1\<close>
  and \<^verbatim>\<open>1.0\<close> are equal and hash alike, so they are one key.
\<close>

datatype pykey = KNone | KNum rat | KStr string

fun key_of :: "json \<Rightarrow> pykey option" where
  "key_of JNull = Some KNone"
| "key_of (JBool b) = Some (KNum (if b then 1 else 0))"
| "key_of (JInt i) = Some (KNum (of_int i))"
| "key_of (JFloat r) = Some (KNum r)"
| "key_of (JStr s) = Some (KStr s)"
| "key_of (JArr xs) = None"
| "key_of (JObj kvs) = None"

definition unhashable :: "json \<Rightarrow> exn" where
  "unhashable v = Exn TypeError (''unhashable type: '' @ [CHR 0x27] @ type_name v @ [CHR 0x27])"

text \<open>Sequencing of steps that may raise: the first exception ends the sequence.\<close>

fun bind_exn :: "exn + 'a \<Rightarrow> ('a \<Rightarrow> exn + 'b) \<Rightarrow> exn + 'b" where
  "bind_exn (Inl e) f = Inl e"
| "bind_exn (Inr x) f = f x"

subsection \<open>Text formatting\<close>

fun show_nat :: "nat \<Rightarrow> string" where
  "show_nat n =
     (if n < 10 then [char_of (48 + n)]
      else show_nat (n div 10) @ [char_of (48 + n mod 10)])"

declare show_nat.simps [simp del]

definition show_int :: "int \<Rightarrow> string" where
  "show_int i = (if i < 0 then ''-'' @ show_nat (nat (- i)) else show_nat (nat i))"

text \<open>
  \<^verbatim>\<open>s[:n]\<close>: the first \<open>n\<close> characters of a text. A \<open>string\<close> holds the UTF-8
  bytes of the text, so a character is a lead byte with the continuation bytes
  (\<open>0x80\<close> to \<open>0xBF\<close>) that follow it.
\<close>

definition is_continuation :: "char \<Rightarrow> bool" where
  "is_continuation c = ((of_char c :: nat) div 64 = 2)"

fun take_chars :: "nat \<Rightarrow> string \<Rightarrow> string" where
  "take_chars n [] = []"
| "take_chars n (c # cs) =
     (if is_continuation c then c # take_chars n cs
      else if n = 0 then []
      else c # take_chars (n - 1) cs)"

text \<open>\<^verbatim>\<open>sep.join(xs)\<close>\<close>

fun join :: "string \<Rightarrow> string list \<Rightarrow> string" where
  "join sep [] = []"
| "join sep [x] = x"
| "join sep (x # y # ys) = x @ sep @ join sep (y # ys)"

text \<open>
  What lies outside the script: Python's \<^verbatim>\<open>str()\<close> of a value that is not a
  string (used by the f-strings); the reply to the \<open>n\<close>-th \<^verbatim>\<open>requests.post\<close> of the
  run, which is an exception or a response; and the longest duration, in seconds,
  that \<^verbatim>\<open>time.sleep\<close> of the platform accepts, with the message of the
  \<^verbatim>\<open>OverflowError\<close> it raises beyond it.
\<close>

record response =
  status_code :: nat
  resp_text :: string
  json_result :: "exn + json"
  error_text :: string

text \<open>
  \<open>resp_text\<close> is \<^verbatim>\<open>r.text\<close>, \<open>json_result\<close> is what \<^verbatim>\<open>r.json()\<close> returns or raises,
  and \<open>error_text\<close> is the message of the \<^verbatim>\<open>HTTPError\<close> that
  \<^verbatim>\<open>r.raise_for_status()\<close> raises for a status from 400 to 599.
\<close>

record platform =
  py_str :: "json \<Rightarrow> string"
  bark_reply :: "nat \<Rightarrow> exn + response"
  sleep_max :: rat
  sleep_overflow_text :: string

definition format_value :: "platform \<Rightarrow> json \<Rightarrow> string" where
  "format_value P v = (case v of JStr s \<Rightarrow> s | _ \<Rightarrow> py_str P v)"

section \<open>Configuration\<close>

text \<open>The module-level constants, read from the environment when the script starts.\<close>

record config =
  SKU :: string
  SEED_STORE :: string
  POLL_INTERVAL_MIN :: int
  POLL_INTERVAL_MAX :: int
  BARK_DEVICE_KEY :: string
  BARK_SERVER_BASE :: string
  BARK_PUSH_ENDPOINT :: string
  BARK_GROUP :: string
  BARK_SOUND :: string
  LOG_CSV_PATH :: string

definition APPLE_API_URL :: "config \<Rightarrow> string" where
  "APPLE_API_URL C =
     ''https://www.apple.com/kr/shop/retail/pickup-message''
     @ ''?pl=true&searchNearby=true&store='' @ SEED_STORE C @ ''&parts.0='' @ SKU C"

section \<open>The world the process acts on\<close>

record payload =
  title :: string
  body :: string
  group :: string
  sound :: string
  url :: "string option"

text \<open>
  \<open>console\<close>: the lines printed by \<^verbatim>\<open>log\<close>, oldest first. \<open>csv_file\<close>: the CSV log,
  \<open>None\<close> while the path does not exist, else its lines, each the list of its cells.
  \<open>posts\<close>: the requests sent by \<^verbatim>\<open>requests.post\<close>. \<open>sleeps\<close>: the durations
  slept. \<open>bark_calls\<close> records every call of \<^verbatim>\<open>bark_send\<close> with its arguments.
\<close>

record world =
  console :: "string list"
  csv_file :: "json list list option"
  posts :: "(string \<times> payload) list"
  sleeps :: "rat list"
  bark_calls :: "(string \<times> string \<times> string option) list"

text \<open>
  The script's \<^verbatim>\<open>log\<close>, which prints its arguments as one line; it is called
  \<open>log_line\<close> here because \<open>log\<close> is the logarithm.
\<close>

definition log_line :: "string \<Rightarrow> world \<Rightarrow> world" where
  "log_line line w = w\<lparr>console := console w @ [line]\<rparr>"

section \<open>Bark push helper\<close>

text \<open>\<^verbatim>\<open>jr.get("code") not in (None, 0, 200)\<close>\<close>

definition code_not_ok :: "json \<Rightarrow> bool" where
  "code_not_ok c = (key_of c \<notin> set [Some KNone, Some (KNum 0), Some (KNum 200)])"

definition em_dash :: string where
  "em_dash = [CHR 0xE2, CHR 0x80, CHR 0x94]"

definition bark_post :: "platform \<Rightarrow> string \<Rightarrow> payload \<Rightarrow> world \<Rightarrow> world" where
  "bark_post P endpoint pl w =
     (let reply = bark_reply P (length (posts w));
          w1 = w\<lparr>posts := posts w @ [(endpoint, pl)]\<rparr>
      in case reply of
           Inl e \<Rightarrow> log_line (''[WARN] Bark push exception: '' @ exn_text e) w1
         | Inr r \<Rightarrow>
             if status_code r \<noteq> 200
             then log_line (''[WARN] Bark push failed HTTP '' @ show_nat (status_code r) @ '': ''
                       @ take_chars 200 (resp_text r)) w1
             else (case json_result r of
                     Inl e \<Rightarrow> w1
                   | Inr jr \<Rightarrow>
                       (case py_get jr ''code'' of
                          Inl e \<Rightarrow> w1
                        | Inr c \<Rightarrow>
                            if code_not_ok c
                            then log_line (''[WARN] Bark returned non-OK payload: '' @ format_value P jr) w1
                            else w1)))"

text \<open>Lines 106 to 108: the \<^verbatim>\<open>url\<close> key is set when the argument is a non-empty string.\<close>

definition bark_payload :: "config \<Rightarrow> string \<Rightarrow> string \<Rightarrow> string option \<Rightarrow> payload" where
  "bark_payload C ttl bdy link =
     \<lparr>title = ttl, body = bdy, group = BARK_GROUP C, sound = BARK_SOUND C,
      url = (case link of None \<Rightarrow> None | Some u \<Rightarrow> if u \<noteq> [] then Some u else None)\<rparr>"

definition not_configured_line :: string where
  "not_configured_line =
     ''[INFO] Bark not configured (set BARK_DEVICE_KEY or BARK_PUSH_ENDPOINT) ''
     @ em_dash @ '' skipping push.''"

definition bark_send :: "platform \<Rightarrow> config \<Rightarrow> string \<Rightarrow> string \<Rightarrow> string option \<Rightarrow> world \<Rightarrow> world" where
  "bark_send P C ttl bdy link w =
     (let pl = bark_payload C ttl bdy link;
          w0 = w\<lparr>bark_calls := bark_calls w @ [(ttl, bdy, link)]\<rparr>
      in if BARK_DEVICE_KEY C \<noteq> []
         then bark_post P (BARK_SERVER_BASE C @ ''/'' @ BARK_DEVICE_KEY C) pl w0
         else if BARK_PUSH_ENDPOINT C \<noteq> []
         then bark_post P (BARK_PUSH_ENDPOINT C) pl w0
         else log_line not_configured_line w0)"


section \<open>Apple API parsing\<close>

record avail_record =
  storeNumber :: json
  storeName :: json
  city :: json
  pickupDisplay :: json
  quote :: json

text \<open>
  The body of the loop of \<^verbatim>\<open>fetch_availability\<close> (lines 155 to 163): the record
  of one entry \<open>s\<close> of the store list.
\<close>

definition store_record :: "string \<Rightarrow> json \<Rightarrow> exn + avail_record" where
  "store_record part s =
     bind_exn (py_get s ''partsAvailability'') (\<lambda>pav.
     bind_exn (py_get (py_or pav (JObj [])) part) (\<lambda>skuv.
     let pa = py_or skuv (JObj []) in
     bind_exn (py_get s ''storeNumber'') (\<lambda>sn.
     bind_exn (py_get s ''storeName'') (\<lambda>nm.
     bind_exn (py_get s ''city'') (\<lambda>ct.
     bind_exn (py_get pa ''pickupDisplay'') (\<lambda>pd.
     bind_exn (py_get pa ''messageTypes'') (\<lambda>mt.
     bind_exn (py_get (py_or mt (JObj [])) ''regular'') (\<lambda>reg.
     bind_exn (py_get (py_or reg (JObj [])) ''storePickupQuote'') (\<lambda>spq.
     bind_exn (if truthy spq then Inr spq
               else bind_exn (py_get pa ''pickupSearchQuote'') (\<lambda>psq. Inr (py_or psq (JStr []))))
       (\<lambda>q.
     Inr \<lparr>storeNumber = sn, storeName = nm, city = ct, pickupDisplay = pd, quote = q\<rparr>))))))))))"

fun store_records :: "string \<Rightarrow> json list \<Rightarrow> exn + avail_record list" where
  "store_records part [] = Inr []"
| "store_records part (s # ss) =
     bind_exn (store_record part s) (\<lambda>r.
     bind_exn (store_records part ss) (\<lambda>rs. Inr (r # rs)))"

text \<open>Lines 152 to 164: from the decoded body to the list of records.\<close>

definition parse_stores :: "string \<Rightarrow> json \<Rightarrow> exn + avail_record list" where
  "parse_stores part data =
     bind_exn (py_get_default data ''body'' (JObj [])) (\<lambda>b.
     bind_exn (py_get_default b ''stores'' (JArr [])) (\<lambda>st.
     bind_exn (py_iter (py_or st (JArr []))) (store_records part)))"

definition left_arrow :: string where
  "left_arrow = [CHR 0xE2, CHR 0x86, CHR 0x90]"

definition http_debug_line :: "config \<Rightarrow> response \<Rightarrow> string" where
  "http_debug_line C r =
     ''[DEBUG] HTTP '' @ show_nat (status_code r) @ '' '' @ left_arrow @ '' '' @ APPLE_API_URL C"

definition json_failed_line :: "response \<Rightarrow> string" where
  "json_failed_line r =
     ''[ERROR] JSON parse failed. First 300 chars:'' @ '' '' @ take_chars 300 (resp_text r)"

text \<open>
  \<open>reply\<close> is what \<^verbatim>\<open>session.get\<close> does: it raises or returns a response.
\<close>

definition fetch_availability :: "config \<Rightarrow> exn + response \<Rightarrow> world \<Rightarrow> (exn + avail_record list) \<times> world" where
  "fetch_availability C reply w =
     (case reply of
        Inl e \<Rightarrow> (Inl e, w)
      | Inr r \<Rightarrow>
          (let w1 = log_line (http_debug_line C r) w
           in if 400 \<le> status_code r \<and> status_code r < 600
              then (Inl (Exn HTTPError (error_text r)), w1)
              else (case json_result r of
                      Inl e \<Rightarrow> (Inl e, if is_JSONDecodeError e then log_line (json_failed_line r) w1 else w1)
                    | Inr data \<Rightarrow> (parse_stores (SKU C) data, w1))))"

section \<open>Logging utilities\<close>

definition columns :: "string list" where
  "columns = [''ts_utc'', ''ts_kr'', ''sku'', ''storeName'', ''storeNumber'',
              ''city'', ''pickupDisplay'', ''quote'']"

definition header :: "json list" where
  "header = map JStr columns"

definition ensure_log :: "world \<Rightarrow> world" where
  "ensure_log w = (case csv_file w of None \<Rightarrow> w\<lparr>csv_file := Some [header]\<rparr> | Some ls \<Rightarrow> w)"

record log_row =
  ts_utc :: string
  ts_kr :: string
  sku :: string
  rec :: avail_record

text \<open>The cells of a row, in the order of the columns.\<close>

definition row_cells :: "log_row \<Rightarrow> json list" where
  "row_cells x =
     [JStr (ts_utc x), JStr (ts_kr x), JStr (sku x), storeName (rec x), storeNumber (rec x),
      city (rec x), pickupDisplay (rec x), quote (rec x)]"

text \<open>
  \<open>failure\<close> is the exception, if any, that \<^verbatim>\<open>to_csv\<close> raises (the file system
  is outside the script), with what the failed call has done to the file: nothing
  (\<open>None\<close>), or the number of rows it wrote before the exception. Appending to a path
  that does not exist creates the file.
\<close>

definition append_log ::
  "(exn \<times> nat option) option \<Rightarrow> log_row list \<Rightarrow> world \<Rightarrow> exn option \<times> world" where
  "append_log failure rows w =
     (if rows = [] then (None, w)
      else (case failure of
              Some (e, None) \<Rightarrow> (Some e, w)
            | Some (e, Some n) \<Rightarrow>
                (Some e, w\<lparr>csv_file := Some ((case csv_file w of None \<Rightarrow> [] | Some ls \<Rightarrow> ls)
                                               @ take n (map row_cells rows))\<rparr>)
            | None \<Rightarrow>
                (None, w\<lparr>csv_file := Some ((case csv_file w of None \<Rightarrow> [] | Some ls \<Rightarrow> ls)
                                             @ map row_cells rows)\<rparr>)))"

section \<open>Main loop\<close>

text \<open>
  \<^verbatim>\<open>last_flags\<close>: the transition state, from the identifier of a store to the
  availability last recorded for it.
\<close>

type_synonym flags = "pykey \<rightharpoonup> bool"

definition push_title :: "platform \<Rightarrow> avail_record \<Rightarrow> string" where
  "push_title P r =
     ''In stock: '' @ format_value P (storeName r) @ '' - iPhone 17 Pro Max 512GB Silver''"

definition push_body :: "platform \<Rightarrow> string \<Rightarrow> avail_record \<Rightarrow> string" where
  "push_body P kr r =
     kr @ '' pickup available ('' @ format_value P (city r) @ '')'' @ [CHR 0x0A]
     @ format_value P (quote r)"

definition product_url :: string where
  "product_url = ''https://www.apple.com/kr/shop/buy-iphone/iphone-17-pro''"

definition store_id :: "avail_record \<Rightarrow> json" where
  "store_id r = py_or (storeNumber r) (storeName r)"

definition is_available :: "avail_record \<Rightarrow> bool" where
  "is_available r = (pickupDisplay r = JStr ''available'')"

text \<open>
  The body of the loop over the fetched records (lines 239 to 252), on the console,
  the flags and the rows collected so far. A record always has its five keys, so
  \<^verbatim>\<open>r.get(k)\<close> is the field. Both \<^verbatim>\<open>last_flags.get(sid)\<close> and
  \<^verbatim>\<open>last_flags[sid] = avail\<close> raise \<^verbatim>\<open>TypeError\<close> for an unhashable \<^verbatim>\<open>sid\<close>, and
  nothing happens between the append to \<^verbatim>\<open>avail_rows\<close> and the first of them.
\<close>

fun detect_record ::
  "platform \<Rightarrow> config \<Rightarrow> string \<Rightarrow> string \<Rightarrow> avail_record \<Rightarrow> world \<times> flags \<times> log_row list
   \<Rightarrow> exn option \<times> world \<times> flags \<times> log_row list" where
  "detect_record P C utc kr r (w, last_flags, avail_rows) =
     (let avail = is_available r;
          sid = store_id r;
          rows1 = (if avail
                   then avail_rows @ [\<lparr>ts_utc = utc, ts_kr = kr, sku = SKU C, rec = r\<rparr>]
                   else avail_rows)
      in case key_of sid of
           None \<Rightarrow> (Some (unhashable sid), w, last_flags, rows1)
         | Some k \<Rightarrow>
             (let w1 = (if avail \<and> last_flags k \<noteq> Some True
                        then bark_send P C (push_title P r) (push_body P kr r) (Some product_url) w
                        else w)
              in (None, w1, last_flags(k \<mapsto> avail), rows1)))"

fun detect_loop ::
  "platform \<Rightarrow> config \<Rightarrow> string \<Rightarrow> string \<Rightarrow> avail_record list \<Rightarrow> world \<times> flags \<times> log_row list
   \<Rightarrow> exn option \<times> world \<times> flags \<times> log_row list" where
  "detect_loop P C utc kr [] st = (None, st)"
| "detect_loop P C utc kr (r # rs) st =
     (case detect_record P C utc kr r st of
        (Some e, st') \<Rightarrow> (Some e, st')
      | (None, st') \<Rightarrow> detect_loop P C utc kr rs st')"

text \<open>
  What one pass of the loop takes from outside: the two timestamps of
  \<^verbatim>\<open>now_strs\<close>, what \<^verbatim>\<open>session.get\<close> does, whether the write of the CSV rows
  fails and what it leaves in the file, the value of \<^verbatim>\<open>random.random()\<close> behind
  \<^verbatim>\<open>random.uniform\<close>, and whether a
  termination signal arrives. The signal is delivered during the sleep, where the
  process spends its time; its handler sets the stop flag and prints a line.
\<close>

record cycle_env =
  now_utc :: string
  now_kr :: string
  apple_reply :: "exn + response"
  append_failure :: "(exn \<times> nat option) option"
  random :: rat
  signalled :: bool

definition brief_line :: "platform \<Rightarrow> string \<Rightarrow> avail_record list \<Rightarrow> string" where
  "brief_line P kr res =
     ''['' @ kr @ ''] ''
     @ join '' | '' (map (\<lambda>r. format_value P (storeName r) @ '':'' @ format_value P (pickupDisplay r)) res)"

text \<open>The \<^verbatim>\<open>try\<close> block of the loop (lines 219 to 254) and the exception that leaves it.\<close>

fun try_body :: "platform \<Rightarrow> config \<Rightarrow> cycle_env \<Rightarrow> world \<times> flags \<Rightarrow> exn option \<times> world \<times> flags" where
  "try_body P C E (w, last_flags) =
     (case fetch_availability C (apple_reply E) w of
        (Inl e, w1) \<Rightarrow> (Some e, w1, last_flags)
      | (Inr res, w1) \<Rightarrow>
          (case detect_loop P C (now_utc E) (now_kr E) res
                  (log_line (brief_line P (now_kr E) res) w1, last_flags, []) of
             (Some e, w3, fl3, rows) \<Rightarrow> (Some e, w3, fl3)
           | (None, w3, fl3, rows) \<Rightarrow>
               (case append_log (append_failure E) rows w3 of
                  (err, w4) \<Rightarrow> (err, w4, fl3))))"

text \<open>The three \<^verbatim>\<open>except\<close> clauses, in their order.\<close>

definition handler_line :: "exn \<Rightarrow> string" where
  "handler_line e =
     (if is_HTTPError e then ''[WARN] HTTP error: '' @ exn_text e
      else if is_RequestException e then ''[WARN] Network exception: '' @ exn_text e
      else ''[WARN] Unknown exception: '' @ exn_text e)"

fun cycle :: "platform \<Rightarrow> config \<Rightarrow> cycle_env \<Rightarrow> world \<times> flags \<Rightarrow> world \<times> flags" where
  "cycle P C E st =
     (case try_body P C E st of
        (None, w, fl) \<Rightarrow> (w, fl)
      | (Some e, w, fl) \<Rightarrow> (log_line (handler_line e) w, fl))"

text \<open>
  \<^verbatim>\<open>random.uniform(a, b)\<close> is \<^verbatim>\<open>a + (b - a) * random()\<close>. The bounds are
  integers, and an integer that rounds to \<open>2 ^ 1024\<close> or beyond cannot become a float:
  the product or the sum raises \<^verbatim>\<open>OverflowError\<close>. Otherwise the model keeps the
  exact value of the expression; the rounding of the float arithmetic is left out.
\<close>

definition float_overflow :: int where
  "float_overflow = 2 ^ 1024 - 2 ^ 970"

definition uniform :: "int \<Rightarrow> int \<Rightarrow> rat \<Rightarrow> exn + rat" where
  "uniform a b u =
     (if float_overflow \<le> \<bar>b - a\<bar> \<or> float_overflow \<le> \<bar>a\<bar>
      then Inl (Exn OverflowError ''int too large to convert to float'')
      else Inr (of_int a + of_int (b - a) * u))"

definition slept :: "rat \<Rightarrow> world \<Rightarrow> world" where
  "slept d w = w\<lparr>sleeps := sleeps w @ [d]\<rparr>"

text \<open>
  \<^verbatim>\<open>time.sleep(d)\<close> first converts the duration, which raises \<^verbatim>\<open>OverflowError\<close>
  when it is beyond the range of the platform, and then raises \<^verbatim>\<open>ValueError\<close> when
  it is negative. The call is outside the \<^verbatim>\<open>try\<close> block, like that of
  \<^verbatim>\<open>random.uniform\<close>.
\<close>

definition sleep :: "platform \<Rightarrow> rat \<Rightarrow> world \<Rightarrow> exn + world" where
  "sleep P d w =
     (if sleep_max P < \<bar>d\<bar> then Inl (Exn OverflowError (sleep_overflow_text P))
      else if d < 0 then Inl (Exn ValueError ''sleep length must be non-negative'')
      else Inr (slept d w))"

definition ellipsis :: string where
  "ellipsis = [CHR 0xE2, CHR 0x80, CHR 0xA6]"

definition stop_signal :: "world \<Rightarrow> world" where
  "stop_signal w = log_line ([CHR 0x0A] @ ''[INFO] Interrupt received, exiting'' @ ellipsis) w"

text \<open>
  How a run stands after the passes it was given: still in the loop, returned from
  \<^verbatim>\<open>main\<close>, or ended by an exception that nothing caught.
\<close>

datatype outcome = Running | Exited | Crashed exn

fun main_loop ::
  "platform \<Rightarrow> config \<Rightarrow> cycle_env list \<Rightarrow> world \<times> flags \<Rightarrow> outcome \<times> world \<times> flags" where
  "main_loop P C [] (w, fl) = (Running, w, fl)"
| "main_loop P C (E # Es) (w, fl) =
     (case cycle P C E (w, fl) of
        (w1, fl1) \<Rightarrow>
          (case uniform (POLL_INTERVAL_MIN C) (POLL_INTERVAL_MAX C) (random E) of
             Inl e \<Rightarrow> (Crashed e, w1, fl1)
           | Inr d \<Rightarrow>
               (case sleep P d w1 of
                  Inl e \<Rightarrow> (Crashed e, w1, fl1)
                | Inr w2 \<Rightarrow>
                    if signalled E
                    then (Exited,
                          log_line (''Exit. CSV log at:'' @ '' '' @ LOG_CSV_PATH C) (stop_signal w2),
                          fl1)
                    else main_loop P C Es (w2, fl1))))"

definition right_arrow :: string where
  "right_arrow = [CHR 0xE2, CHR 0x86, CHR 0x92]"

definition en_dash :: string where
  "en_dash = [CHR 0xE2, CHR 0x80, CHR 0x93]"

definition banner :: "config \<Rightarrow> world \<Rightarrow> world" where
  "banner C w =
     (let w1 = log_line ''=== KR iPhone 17 Pro Max 512GB Silver monitor (public) ==='' w;
          w2 = log_line (''API:'' @ '' '' @ APPLE_API_URL C) w1;
          w3 = (if BARK_DEVICE_KEY C \<noteq> []
                then log_line (''Bark: using device key endpoint '' @ right_arrow @ '' ''
                          @ BARK_SERVER_BASE C @ ''/<hidden>'') w2
                else if BARK_PUSH_ENDPOINT C \<noteq> []
                then log_line (''Bark: using explicit endpoint '' @ right_arrow @ '' ''
                          @ BARK_PUSH_ENDPOINT C) w2
                else log_line ''Bark: not configured (set env vars if you want push)'' w2)
      in log_line (''Poll interval:'' @ '' '' @ show_int (POLL_INTERVAL_MIN C) @ en_dash
              @ show_int (POLL_INTERVAL_MAX C) @ '' s'') w3)"

text \<open>\<^verbatim>\<open>main\<close>: the flags start empty.\<close>

definition main :: "platform \<Rightarrow> config \<Rightarrow> cycle_env list \<Rightarrow> world \<Rightarrow> outcome \<times> world \<times> flags" where
  "main P C Es w = main_loop P C Es (ensure_log (banner C w), Map.empty)"


section \<open>Vocabulary of the properties\<close>

text \<open>\<^verbatim>\<open>d.get(k)\<close> on the items of a dict.\<close>

definition field :: "(string \<times> json) list \<Rightarrow> string \<Rightarrow> json" where
  "field kvs k = (case map_of kvs k of None \<Rightarrow> JNull | Some v \<Rightarrow> v)"

text \<open>
  A store entry with no availability for the part: its \<^verbatim>\<open>partsAvailability\<close> is
  missing, null or otherwise false, or it is an object in which the part is missing,
  null or otherwise false.
\<close>

definition lacks_availability :: "string \<Rightarrow> (string \<times> json) list \<Rightarrow> bool" where
  "lacks_availability part kvs =
     (case field kvs ''partsAvailability'' of
        JObj pkvs \<Rightarrow> \<not> truthy (field pkvs part)
      | v \<Rightarrow> \<not> truthy v)"

text \<open>The arguments of the \<^verbatim>\<open>bark_send\<close> call of line 251, and the row of line 242.\<close>

definition notification :: "platform \<Rightarrow> string \<Rightarrow> avail_record \<Rightarrow> string \<times> string \<times> string option" where
  "notification P kr r = (push_title P r, push_body P kr r, Some product_url)"

definition make_row :: "config \<Rightarrow> string \<Rightarrow> string \<Rightarrow> avail_record \<Rightarrow> log_row" where
  "make_row C utc kr r = \<lparr>ts_utc = utc, ts_kr = kr, sku = SKU C, rec = r\<rparr>"

text \<open>
  A record is newly available against the flags when it is available and the flag
  stored for its identifier is not \<^verbatim>\<open>True\<close>.
\<close>

definition newly :: "flags \<Rightarrow> avail_record \<Rightarrow> bool" where
  "newly fl r =
     (is_available r
      \<and> (case key_of (store_id r) of None \<Rightarrow> False | Some k \<Rightarrow> fl k \<noteq> Some True))"

definition record_flag :: "avail_record \<Rightarrow> flags \<Rightarrow> flags" where
  "record_flag r fl =
     (case key_of (store_id r) of None \<Rightarrow> fl | Some k \<Rightarrow> fl(k \<mapsto> is_available r))"

text \<open>The records of a list that are newly available when their turn comes.\<close>

fun notified :: "flags \<Rightarrow> avail_record list \<Rightarrow> avail_record list" where
  "notified fl [] = []"
| "notified fl (r # rs) = (if newly fl r then [r] else []) @ notified (record_flag r fl) rs"

text \<open>The request of a pass succeeds and is parsed into the records \<open>res\<close>.\<close>

definition fetched :: "config \<Rightarrow> cycle_env \<Rightarrow> avail_record list \<Rightarrow> bool" where
  "fetched C E res =
     (case apple_reply E of
        Inl e \<Rightarrow> False
      | Inr r \<Rightarrow>
          \<not> (400 \<le> status_code r \<and> status_code r < 600)
          \<and> (case json_result r of
               Inl e \<Rightarrow> False
             | Inr data \<Rightarrow> parse_stores (SKU C) data = Inr res))"

definition debug_line :: "config \<Rightarrow> cycle_env \<Rightarrow> string" where
  "debug_line C E =
     (case apple_reply E of
        Inl e \<Rightarrow> []
      | Inr r \<Rightarrow> http_debug_line C r)"

text \<open>The lines of the CSV log; none while the file is absent.\<close>

definition csv_lines :: "world \<Rightarrow> json list list" where
  "csv_lines w = (case csv_file w of None \<Rightarrow> [] | Some ls \<Rightarrow> ls)"

text \<open>The file after \<^verbatim>\<open>append_log\<close> was called with rows of the cells \<open>cells\<close>.\<close>

definition appended :: "(exn \<times> nat option) option \<Rightarrow> json list list \<Rightarrow> world \<Rightarrow> json list list option" where
  "appended failure cells w =
     (if cells = [] then csv_file w
      else (case failure of
              None \<Rightarrow> Some (csv_lines w @ cells)
            | Some (e, None) \<Rightarrow> csv_file w
            | Some (e, Some n) \<Rightarrow> Some (csv_lines w @ take n cells)))"

text \<open>The rows that a pass with the records \<open>res\<close> hands to \<^verbatim>\<open>append_log\<close>.\<close>

definition available_rows :: "config \<Rightarrow> cycle_env \<Rightarrow> avail_record list \<Rightarrow> log_row list" where
  "available_rows C E res = map (make_row C (now_utc E) (now_kr E)) (filter is_available res)"

text \<open>The duration that \<^verbatim>\<open>random.uniform\<close> gives a pass when it does not raise.\<close>

definition pause :: "config \<Rightarrow> cycle_env \<Rightarrow> rat" where
  "pause C E =
     of_int (POLL_INTERVAL_MIN C)
     + of_int (POLL_INTERVAL_MAX C - POLL_INTERVAL_MIN C) * random E"

text \<open>
  Consecutive passes of the loop, each followed by its sleep, as \<open>main_loop\<close> runs
  them while the sleeps succeed and no signal arrives.
\<close>

fun cycles :: "platform \<Rightarrow> config \<Rightarrow> cycle_env list \<Rightarrow> world \<times> flags \<Rightarrow> world \<times> flags" where
  "cycles P C [] st = st"
| "cycles P C (E # Es) st =
     cycles P C Es (slept (pause C E) (fst (cycle P C E st)), snd (cycle P C E st))"

text \<open>
  Polling that the platform can carry out: the poll bounds are not negative and not
  beyond the longest sleep, the longest sleep is a duration that fits a float, and
  \<^verbatim>\<open>random.random()\<close> stays between 0 and 1. In a quiet run, moreover, no
  termination signal arrives.
\<close>

definition sound_polling :: "platform \<Rightarrow> config \<Rightarrow> cycle_env list \<Rightarrow> bool" where
  "sound_polling P C Es =
     (0 \<le> POLL_INTERVAL_MIN C \<and> 0 \<le> POLL_INTERVAL_MAX C
      \<and> of_int (POLL_INTERVAL_MIN C) \<le> sleep_max P
      \<and> of_int (POLL_INTERVAL_MAX C) \<le> sleep_max P
      \<and> sleep_max P < of_int float_overflow
      \<and> list_all (\<lambda>E. 0 \<le> random E \<and> random E \<le> 1) Es)"

definition quiet_run :: "platform \<Rightarrow> config \<Rightarrow> cycle_env list \<Rightarrow> bool" where
  "quiet_run P C Es = (sound_polling P C Es \<and> list_all (\<lambda>E. \<not> signalled E) Es)"

subsection \<open>Sample data\<close>

definition sample_config :: config where
  "sample_config =
     \<lparr>SKU = ''MFYQ4KH/A'', SEED_STORE = ''R764'', POLL_INTERVAL_MIN = 10,
      POLL_INTERVAL_MAX = 15, BARK_DEVICE_KEY = ''devicekey'',
      BARK_SERVER_BASE = ''https://api.day.app'', BARK_PUSH_ENDPOINT = [],
      BARK_GROUP = ''Apple KR 17PM'', BARK_SOUND = ''minuet'',
      LOG_CSV_PATH = ''iphone17pm_silver_512_availability_log.csv''\<rparr>"

text \<open>A platform on which every push is refused.\<close>

definition sample_platform :: platform where
  "sample_platform =
     \<lparr>py_str = (\<lambda>v. ''None''),
      bark_reply = (\<lambda>n. Inl (Exn TransportError ''Connection refused'')),
      sleep_max = 9223372036, sleep_overflow_text = ''timestamp too large to convert to C _PyTime_t''\<rparr>"

definition sample_store :: "string \<Rightarrow> string \<Rightarrow> json" where
  "sample_store number display =
     JObj [(''storeNumber'', JStr number), (''storeName'', JStr ''Hongdae''),
           (''city'', JStr ''Seoul''),
           (''partsAvailability'',
            JObj [(''MFYQ4KH/A'',
                   JObj [(''pickupDisplay'', JStr display),
                         (''pickupSearchQuote'', JStr ''Today'')])])]"

definition sample_record :: "string \<Rightarrow> string \<Rightarrow> avail_record" where
  "sample_record number display =
     \<lparr>storeNumber = JStr number, storeName = JStr ''Hongdae'', city = JStr ''Seoul'',
      pickupDisplay = JStr display, quote = JStr ''Today''\<rparr>"

definition sample_reply :: "json list \<Rightarrow> exn + response" where
  "sample_reply stores =
     Inr \<lparr>status_code = 200, resp_text = [],
          json_result = Inr (JObj [(''body'', JObj [(''stores'', JArr stores)])]),
          error_text = []\<rparr>"

definition sample_env :: "exn + response \<Rightarrow> cycle_env" where
  "sample_env reply =
     \<lparr>now_utc = ''2025-09-19 00:00:00 UTC'', now_kr = ''2025-09-19 09:00:00 KST'',
      apple_reply = reply, append_failure = None, random = 1 / 2, signalled = False\<rparr>"

definition sample_pass :: "string \<Rightarrow> cycle_env" where
  "sample_pass display = sample_env (sample_reply [sample_store ''R764'' display])"

definition sample_world :: world where
  "sample_world = \<lparr>console = [], csv_file = Some [header], posts = [], sleeps = [], bark_calls = []\<rparr>"

text \<open>A warning line of the console, and the lines a step adds to the console.\<close>

definition is_warning :: "string \<Rightarrow> bool" where
  "is_warning line = (take 6 line = ''[WARN]'')"

definition new_lines :: "world \<Rightarrow> world \<Rightarrow> string list" where
  "new_lines w w' = drop (length (console w)) (console w')"

text \<open>
  The push fails: \<^verbatim>\<open>requests.post\<close> raises, or the status is not 200, or the decoded
  reply carries a \<^verbatim>\<open>code\<close> other than \<^verbatim>\<open>None\<close>, 0 and 200.
\<close>

definition push_failed :: "exn + response \<Rightarrow> bool" where
  "push_failed reply =
     (case reply of
        Inl e \<Rightarrow> True
      | Inr r \<Rightarrow>
          status_code r \<noteq> 200
          \<or> (case json_result r of
               Inl e \<Rightarrow> False
             | Inr jr \<Rightarrow> (case py_get jr ''code'' of Inl e \<Rightarrow> False | Inr c \<Rightarrow> code_not_ok c)))"

section \<open>Facts about the parts\<close>

lemma py_get_JObj: "py_get (JObj kvs) k = Inr (field kvs k)"
  by (simp add: py_get_def field_def)

lemma ensure_log_twice: "ensure_log (ensure_log w) = ensure_log w"
  by (simp add: ensure_log_def split: option.splits)

lemma ensure_log_funpow: "(ensure_log ^^ Suc n) w = ensure_log w"
  by (induction n) (simp_all add: ensure_log_twice)

lemma log_line_fields [simp]:
  "console (log_line l w) = console w @ [l]"
  "csv_file (log_line l w) = csv_file w"
  "posts (log_line l w) = posts w"
  "sleeps (log_line l w) = sleeps w"
  "bark_calls (log_line l w) = bark_calls w"
  by (simp_all add: log_line_def)

lemma bark_post_fields [simp]:
  "posts (bark_post P ep pl w) = posts w @ [(ep, pl)]"
  "csv_file (bark_post P ep pl w) = csv_file w"
  "sleeps (bark_post P ep pl w) = sleeps w"
  "bark_calls (bark_post P ep pl w) = bark_calls w"
  by (simp_all add: bark_post_def Let_def split: sum.splits)

lemma bark_send_fields [simp]:
  "csv_file (bark_send P C t b u w) = csv_file w"
  "sleeps (bark_send P C t b u w) = sleeps w"
  "bark_calls (bark_send P C t b u w) = bark_calls w @ [(t, b, u)]"
  by (simp_all add: bark_send_def Let_def)

lemma store_record_lacking:
  assumes "lacks_availability part kvs"
  shows "store_record part (JObj kvs) =
           Inr \<lparr>storeNumber = field kvs ''storeNumber'', storeName = field kvs ''storeName'',
                city = field kvs ''city'', pickupDisplay = JNull, quote = JStr []\<rparr>"
proof -
  have "\<exists>v. py_get (py_or (field kvs ''partsAvailability'') (JObj [])) part = Inr v \<and> \<not> truthy v"
  proof (cases "field kvs ''partsAvailability''")
    case (JObj pkvs)
    with assms have a: "\<not> truthy (field pkvs part)" by (simp add: lacks_availability_def)
    show ?thesis
    proof (cases "pkvs = []")
      case True
      then show ?thesis using JObj by (simp add: py_or_def py_get_def)
    next
      case False
      then show ?thesis using JObj a by (simp add: py_or_def py_get_JObj)
    qed
  qed (use assms in \<open>simp_all add: lacks_availability_def py_or_def py_get_def\<close>)
  then obtain v
    where v: "py_get (py_or (field kvs ''partsAvailability'') (JObj [])) part = Inr v" "\<not> truthy v"
    by blast
  show ?thesis
    using v by (simp add: store_record_def py_get_JObj py_or_def field_def)
qed

text \<open>Where the parse of an entry does raise: the entry, or a true \<^verbatim>\<open>partsAvailability\<close>, is no object.\<close>

lemma store_record_not_object:
  assumes "\<forall>kvs. s \<noteq> JObj kvs"
  shows "store_record part s = Inl (no_attribute_get s)"
  using assms by (cases s) (simp_all add: store_record_def py_get_def)

lemma store_record_availability_not_object:
  assumes "field kvs ''partsAvailability'' = v" and "truthy v" and "\<forall>pkvs. v \<noteq> JObj pkvs"
  shows "store_record part (JObj kvs) = Inl (no_attribute_get v)"
proof -
  have 1: "py_get (JObj kvs) ''partsAvailability'' = Inr v"
    by (simp add: py_get_JObj assms(1))
  have 2: "py_or v (JObj []) = v"
    using assms(2) by (simp add: py_or_def)
  have 3: "py_get v part = Inl (no_attribute_get v)"
    using assms(3) by (cases v) (simp_all add: py_get_def)
  show ?thesis by (simp add: store_record_def 1 2 3)
qed

lemma store_records_append:
  "store_records part (xs @ ys) =
     bind_exn (store_records part xs) (\<lambda>as.
     bind_exn (store_records part ys) (\<lambda>bs. Inr (as @ bs)))"
proof (induction xs)
  case Nil
  show ?case by (cases "store_records part ys") simp_all
next
  case (Cons x xs)
  show ?case
  proof (cases "store_record part x")
    case (Inl e)
    then show ?thesis by simp
  next
    case (Inr r)
    show ?thesis
    proof (cases "store_records part xs")
      case (Inl e)
      then show ?thesis using Inr Cons by simp
    next
      case xs_ok: (Inr as)
      show ?thesis
        by (cases "store_records part ys") (simp_all add: Inr xs_ok Cons)
    qed
  qed
qed

lemma fetch_fetched:
  assumes "fetched C E res"
  shows "fetch_availability C (apple_reply E) w = (Inr res, log_line (debug_line C E) w)"
  using assms
  by (auto simp: fetched_def fetch_availability_def debug_line_def Let_def split: sum.splits)

lemma fetch_Inr:
  assumes "fetch_availability C (apple_reply E) w = (Inr res, w1)"
  shows "fetched C E res"
  using assms
  by (auto simp: fetched_def fetch_availability_def Let_def split: sum.splits if_splits)

lemma detect_record_hashable:
  assumes "key_of (store_id r) = Some k"
  shows "detect_record P C utc kr r (w, fl, rows) =
          (None,
           (if is_available r \<and> fl k \<noteq> Some True
            then bark_send P C (push_title P r) (push_body P kr r) (Some product_url) w else w),
           fl(k \<mapsto> is_available r),
           (if is_available r then rows @ [make_row C utc kr r] else rows))"
  using assms by (simp add: Let_def make_row_def)

lemma detect_loop_hashable:
  assumes "\<forall>r \<in> set res. key_of (store_id r) \<noteq> None"
  shows "\<exists>w'. detect_loop P C utc kr res (w, fl, rows) =
                 (None, w', fold record_flag res fl,
                  rows @ map (make_row C utc kr) (filter is_available res))
              \<and> bark_calls w' = bark_calls w @ map (notification P kr) (notified fl res)
              \<and> csv_file w' = csv_file w \<and> sleeps w' = sleeps w"
  using assms
proof (induction res arbitrary: w fl rows)
  case Nil
  then show ?case by simp
next
  case (Cons r rs)
  then obtain k where k: "key_of (store_id r) = Some k" by auto
  let ?w1 = "if is_available r \<and> fl k \<noteq> Some True
             then bark_send P C (push_title P r) (push_body P kr r) (Some product_url) w else w"
  let ?rows1 = "if is_available r then rows @ [make_row C utc kr r] else rows"
  have step: "detect_record P C utc kr r (w, fl, rows) = (None, ?w1, fl(k \<mapsto> is_available r), ?rows1)"
    by (rule detect_record_hashable [OF k])
  from Cons.prems have "\<forall>x \<in> set rs. key_of (store_id x) \<noteq> None" by simp
  from Cons.IH [OF this, of ?w1 "fl(k \<mapsto> is_available r)" ?rows1]
  obtain w' where w':
    "detect_loop P C utc kr rs (?w1, fl(k \<mapsto> is_available r), ?rows1) =
       (None, w', fold record_flag rs (fl(k \<mapsto> is_available r)),
        ?rows1 @ map (make_row C utc kr) (filter is_available rs))"
    "bark_calls w' = bark_calls ?w1 @ map (notification P kr) (notified (fl(k \<mapsto> is_available r)) rs)"
    "csv_file w' = csv_file ?w1" "sleeps w' = sleeps ?w1"
    by blast
  have rf: "record_flag r fl = fl(k \<mapsto> is_available r)"
    by (simp add: record_flag_def k)
  have nw: "newly fl r = (is_available r \<and> fl k \<noteq> Some True)"
    by (simp add: newly_def k)
  have "detect_loop P C utc kr (r # rs) (w, fl, rows) =
          (None, w', fold record_flag (r # rs) fl,
           rows @ map (make_row C utc kr) (filter is_available (r # rs)))"
    using step w'(1) by (simp add: rf del: detect_record.simps)
  moreover have "bark_calls w' = bark_calls w @ map (notification P kr) (notified fl (r # rs))"
    using w'(2) by (simp add: rf nw notification_def)
  moreover have "csv_file w' = csv_file w" "sleeps w' = sleeps w"
    using w'(3,4) by simp_all
  ultimately show ?case by blast
qed

lemma append_log_result:
  "fst (append_log F rows w) = (if rows = [] then None else map_option fst F)"
  "csv_file (snd (append_log F rows w)) = appended F (map row_cells rows) w"
  "bark_calls (snd (append_log F rows w)) = bark_calls w"
  "sleeps (snd (append_log F rows w)) = sleeps w"
  "console (snd (append_log F rows w)) = console w"
  "posts (snd (append_log F rows w)) = posts w"
  by (auto simp: append_log_def appended_def csv_lines_def split: option.splits prod.splits)

lemma appended_same_file:
  assumes "csv_file w' = csv_file w"
  shows "appended F cells w' = appended F cells w"
  using assms by (simp add: appended_def csv_lines_def split: option.splits)

lemma try_body_fetched:
  assumes f: "fetched C E res"
      and h: "\<forall>r \<in> set res. key_of (store_id r) \<noteq> None"
  shows "\<exists>w'. try_body P C E (w, fl) =
                 (if available_rows C E res = [] then None else map_option fst (append_failure E),
                  w', fold record_flag res fl)
              \<and> bark_calls w' = bark_calls w @ map (notification P (now_kr E)) (notified fl res)
              \<and> csv_file w' = appended (append_failure E) (map row_cells (available_rows C E res)) w
              \<and> sleeps w' = sleeps w"
proof -
  let ?w2 = "log_line (brief_line P (now_kr E) res) (log_line (debug_line C E) w)"
  from detect_loop_hashable [OF h, of P C "now_utc E" "now_kr E" ?w2 fl "[]"]
  obtain w3 where w3:
    "detect_loop P C (now_utc E) (now_kr E) res (?w2, fl, []) =
       (None, w3, fold record_flag res fl, available_rows C E res)"
    "bark_calls w3 = bark_calls w @ map (notification P (now_kr E)) (notified fl res)"
    "csv_file w3 = csv_file w" "sleeps w3 = sleeps w"
    by (auto simp: available_rows_def)
  obtain err w4 where a: "append_log (append_failure E) (available_rows C E res) w3 = (err, w4)"
    by (cases "append_log (append_failure E) (available_rows C E res) w3")
  have tb: "try_body P C E (w, fl) = (err, w4, fold record_flag res fl)"
    by (simp add: fetch_fetched [OF f] w3(1) a)
  note r = append_log_result [of "append_failure E" "available_rows C E res" w3, unfolded a fst_conv snd_conv]
  have e: "err = (if available_rows C E res = [] then None else map_option fst (append_failure E))"
    by (rule r(1))
  have b: "bark_calls w4 = bark_calls w @ map (notification P (now_kr E)) (notified fl res)"
    by (simp only: r(3) w3(2))
  have c: "csv_file w4 = appended (append_failure E) (map row_cells (available_rows C E res)) w"
    by (simp only: r(2) appended_same_file [OF w3(3)])
  have d: "sleeps w4 = sleeps w"
    by (simp only: r(4) w3(4))
  show ?thesis
    unfolding tb e [symmetric] using b c d by blast
qed

lemma cycle_fetched:
  assumes f: "fetched C E res"
      and h: "\<forall>r \<in> set res. key_of (store_id r) \<noteq> None"
  shows "snd (cycle P C E (w, fl)) = fold record_flag res fl"
    and "bark_calls (fst (cycle P C E (w, fl))) =
           bark_calls w @ map (notification P (now_kr E)) (notified fl res)"
    and "csv_file (fst (cycle P C E (w, fl))) =
           appended (append_failure E) (map row_cells (available_rows C E res)) w"
proof -
  from try_body_fetched [OF f h, of P w fl] obtain err w' where w':
    "try_body P C E (w, fl) = (err, w', fold record_flag res fl)"
    "bark_calls w' = bark_calls w @ map (notification P (now_kr E)) (notified fl res)"
    "csv_file w' = appended (append_failure E) (map row_cells (available_rows C E res)) w"
    by blast
  show "snd (cycle P C E (w, fl)) = fold record_flag res fl"
    using w'(1) by (simp del: try_body.simps split: option.splits)
  show "bark_calls (fst (cycle P C E (w, fl))) =
           bark_calls w @ map (notification P (now_kr E)) (notified fl res)"
    using w'(1,2) by (simp del: try_body.simps split: option.splits)
  show "csv_file (fst (cycle P C E (w, fl))) =
           appended (append_failure E) (map row_cells (available_rows C E res)) w"
    using w'(1,3) by (simp del: try_body.simps split: option.splits)
qed

lemma detect_loop_append:
  "detect_loop P C utc kr (xs @ ys) st =
     (case detect_loop P C utc kr xs st of
        (Some e, st') \<Rightarrow> (Some e, st')
      | (None, st') \<Rightarrow> detect_loop P C utc kr ys st')"
  by (induction xs arbitrary: st) (auto split: prod.splits option.splits)

lemma detect_loop_other_key:
  assumes "detect_loop P C utc kr res (w, fl, rows) = (err, w', fl', rows')"
      and "\<forall>r \<in> set res. key_of (store_id r) \<noteq> Some k"
  shows "fl' k = fl k"
  using assms
proof (induction res arbitrary: w fl rows)
  case Nil
  then show ?case by simp
next
  case (Cons r rs)
  show ?case
  proof (cases "key_of (store_id r)")
    case None
    with Cons.prems(1) show ?thesis by (simp add: Let_def)
  next
    case (Some j)
    with Cons.prems(2) have jk: "j \<noteq> k" by auto
    from Cons.prems(1) Some obtain w1 rows1 where
      "detect_loop P C utc kr rs (w1, fl(j \<mapsto> is_available r), rows1) = (err, w', fl', rows')"
      by (simp add: Let_def)
    from Cons.IH [OF this] Cons.prems(2) have "fl' k = (fl(j \<mapsto> is_available r)) k" by simp
    with jk show ?thesis by simp
  qed
qed

lemma notified_distinct:
  assumes "distinct (map (\<lambda>r. key_of (store_id r)) res)"
  shows "notified fl res = filter (newly fl) res"
  using assms
proof (induction res arbitrary: fl)
  case Nil
  then show ?case by simp
next
  case (Cons r rs)
  have "newly (record_flag r fl) x = newly fl x" if "x \<in> set rs" for x
  proof -
    from that have "key_of (store_id x) \<in> set (map (\<lambda>r. key_of (store_id r)) rs)" by simp
    with Cons.prems have "key_of (store_id x) \<noteq> key_of (store_id r)" by auto
    then show ?thesis
      by (auto simp: newly_def record_flag_def split: option.splits)
  qed
  then have "filter (newly (record_flag r fl)) rs = filter (newly fl) rs"
    by (simp cong: filter_cong)
  with Cons show ?case by simp
qed

lemma try_body_other_key:
  assumes "try_body P C E (w, fl) = (err, w', fl')"
      and "\<forall>res. fetched C E res \<longrightarrow> (\<forall>r \<in> set res. key_of (store_id r) \<noteq> Some k)"
  shows "fl' k = fl k"
proof (cases "fetch_availability C (apple_reply E) w")
  case (Pair res w1)
  show ?thesis
  proof (cases res)
    case (Inl e)
    with Pair assms(1) show ?thesis by simp
  next
    case (Inr rs)
    with Pair have "fetched C E rs" by (simp add: fetch_Inr)
    with assms(2) have other: "\<forall>r \<in> set rs. key_of (store_id r) \<noteq> Some k" by blast
    obtain err3 w3 fl3 rows3 where d:
      "detect_loop P C (now_utc E) (now_kr E) rs (log_line (brief_line P (now_kr E) rs) w1, fl, []) =
         (err3, w3, fl3, rows3)"
      by (metis prod_cases4)
    from detect_loop_other_key [OF d other] have "fl3 k = fl k" .
    moreover from assms(1) Pair Inr d have "fl' = fl3"
      by (auto split: option.splits prod.splits)
    ultimately show ?thesis by simp
  qed
qed

lemma cycle_other_key:
  assumes "\<forall>res. fetched C E res \<longrightarrow> (\<forall>r \<in> set res. key_of (store_id r) \<noteq> Some k)"
  shows "snd (cycle P C E st) k = snd st k"
proof -
  obtain w fl where st: "st = (w, fl)" by (cases st)
  obtain err w' fl' where t: "try_body P C E (w, fl) = (err, w', fl')"
    by (metis prod_cases3)
  from try_body_other_key [OF t assms] have "fl' k = fl k" .
  then show ?thesis using t st by (simp del: try_body.simps split: option.splits)
qed

lemma slept_fields [simp]:
  "console (slept d w) = console w"
  "csv_file (slept d w) = csv_file w"
  "posts (slept d w) = posts w"
  "sleeps (slept d w) = sleeps w @ [d]"
  "bark_calls (slept d w) = bark_calls w"
  by (simp_all add: slept_def)

lemma cycles_other_key:
  assumes "\<forall>E \<in> set Es. \<forall>res. fetched C E res \<longrightarrow> (\<forall>r \<in> set res. key_of (store_id r) \<noteq> Some k)"
  shows "snd (cycles P C Es st) k = snd st k"
  using assms
proof (induction Es arbitrary: st)
  case Nil
  then show ?case by simp
next
  case (Cons E Es)
  let ?st1 = "(slept (pause C E) (fst (cycle P C E st)), snd (cycle P C E st))"
  from Cons have "snd (cycles P C Es ?st1) k = snd ?st1 k" by simp
  also have "\<dots> = snd st k" using Cons.prems by (simp add: cycle_other_key del: cycle.simps)
  finally show ?case by (simp del: cycle.simps)
qed

lemma cycles_append:
  "cycles P C (Es @ Fs) st = cycles P C Fs (cycles P C Es st)"
  by (induction Es arbitrary: st) (simp_all del: cycle.simps)

lemma cycle_single:
  assumes f: "fetched C E [r]" and k: "key_of (store_id r) = Some k"
  shows "snd (cycle P C E (w, fl)) = fl(k \<mapsto> is_available r)"
    and "bark_calls (fst (cycle P C E (w, fl))) =
           bark_calls w @ (if is_available r \<and> fl k \<noteq> Some True then [notification P (now_kr E) r] else [])"
    and "csv_file (fst (cycle P C E (w, fl))) =
           appended (append_failure E)
             (if is_available r then [row_cells (make_row C (now_utc E) (now_kr E) r)] else []) w"
proof -
  have h: "\<forall>x \<in> set [r]. key_of (store_id x) \<noteq> None" using k by simp
  note c = cycle_fetched [OF f h, of P w fl]
  show "snd (cycle P C E (w, fl)) = fl(k \<mapsto> is_available r)"
    using c(1) by (simp add: record_flag_def k del: cycle.simps)
  show "bark_calls (fst (cycle P C E (w, fl))) =
           bark_calls w @ (if is_available r \<and> fl k \<noteq> Some True then [notification P (now_kr E) r] else [])"
    using c(2) by (simp add: newly_def k del: cycle.simps)
  show "csv_file (fst (cycle P C E (w, fl))) =
           appended (append_failure E)
             (if is_available r then [row_cells (make_row C (now_utc E) (now_kr E) r)] else []) w"
    using c(3) by (simp add: available_rows_def del: cycle.simps)
qed

lemma bark_post_failed:
  assumes "push_failed (bark_reply P (length (posts w)))"
  shows "\<exists>line. is_warning line \<and> console (bark_post P ep pl w) = console w @ [line]"
proof (cases "bark_reply P (length (posts w))")
  case (Inl e)
  then show ?thesis by (simp add: bark_post_def is_warning_def)
next
  case (Inr r)
  show ?thesis
  proof (cases "status_code r = 200")
    case False
    with Inr show ?thesis by (simp add: bark_post_def is_warning_def)
  next
    case True
    with Inr assms obtain jr c where "json_result r = Inr jr" "py_get jr ''code'' = Inr c" "code_not_ok c"
      by (auto simp: push_failed_def split: sum.splits)
    with Inr True show ?thesis by (simp add: bark_post_def is_warning_def)
  qed
qed

lemma bark_post_console:
  "\<exists>ls. console (bark_post P ep pl w) = console w @ ls \<and> length ls \<le> 1 \<and> (\<forall>l \<in> set ls. is_warning l)"
  by (auto simp: bark_post_def Let_def is_warning_def split: sum.splits)

lemma bark_send_posts:
  "posts (bark_send P C t b u w) =
     posts w @ (if BARK_DEVICE_KEY C \<noteq> []
                then [(BARK_SERVER_BASE C @ ''/'' @ BARK_DEVICE_KEY C, bark_payload C t b u)]
                else if BARK_PUSH_ENDPOINT C \<noteq> [] then [(BARK_PUSH_ENDPOINT C, bark_payload C t b u)]
                else [])"
  by (simp add: bark_send_def Let_def)

lemma try_body_single_new:
  assumes f: "fetched C E [r]" and k: "key_of (store_id r) = Some k"
      and a: "is_available r" and n: "fl k \<noteq> Some True" and ok: "append_failure E = None"
  shows "try_body P C E (w, fl) =
          (None,
           (bark_send P C (push_title P r) (push_body P (now_kr E) r) (Some product_url)
              (log_line (brief_line P (now_kr E) [r]) (log_line (debug_line C E) w)))
             \<lparr>csv_file := Some (csv_lines w @ [row_cells (make_row C (now_utc E) (now_kr E) r)])\<rparr>,
           fl(k \<mapsto> True))"
  using a n ok
  by (simp add: fetch_fetched [OF f] detect_record_hashable [OF k] append_log_def csv_lines_def
           del: detect_record.simps)

lemma is_warning_handler_line: "is_warning (handler_line e)"
  by (simp add: handler_line_def is_warning_def)

lemma not_warning_lines:
  "\<not> is_warning (http_debug_line C r)" "\<not> is_warning (json_failed_line r)"
  by (simp_all add: http_debug_line_def json_failed_line_def is_warning_def)

lemma cycle_fetch_error:
  assumes "fetch_availability C (apple_reply E) w = (Inl e, w1)"
  shows "cycle P C E (w, fl) = (log_line (handler_line e) w1, fl)"
  using assms by simp

lemma pause_bounds:
  assumes "0 \<le> random E" "random E \<le> 1"
  shows "min (of_int (POLL_INTERVAL_MIN C)) (of_int (POLL_INTERVAL_MAX C)) \<le> pause C E"
    and "pause C E \<le> max (of_int (POLL_INTERVAL_MIN C)) (of_int (POLL_INTERVAL_MAX C))"
proof -
  let ?a = "of_int (POLL_INTERVAL_MIN C) :: rat" and ?b = "of_int (POLL_INTERVAL_MAX C) :: rat"
  let ?u = "random E"
  have eq: "pause C E = (1 - ?u) * ?a + ?u * ?b"
    by (simp add: pause_def algebra_simps)
  have "(1 - ?u) * min ?a ?b + ?u * min ?a ?b \<le> (1 - ?u) * ?a + ?u * ?b"
    using assms by (intro add_mono mult_left_mono) simp_all
  then show "min ?a ?b \<le> pause C E" by (simp add: eq algebra_simps)
  have "(1 - ?u) * ?a + ?u * ?b \<le> (1 - ?u) * max ?a ?b + ?u * max ?a ?b"
    using assms by (intro add_mono mult_left_mono) simp_all
  then show "pause C E \<le> max ?a ?b" by (simp add: eq algebra_simps)
qed

lemma uniform_pause:
  assumes "\<bar>POLL_INTERVAL_MAX C - POLL_INTERVAL_MIN C\<bar> < float_overflow"
      and "\<bar>POLL_INTERVAL_MIN C\<bar> < float_overflow"
  shows "uniform (POLL_INTERVAL_MIN C) (POLL_INTERVAL_MAX C) (random E) = Inr (pause C E)"
  using assms by (simp add: uniform_def pause_def)

text \<open>Under sound polling neither \<^verbatim>\<open>random.uniform\<close> nor \<^verbatim>\<open>time.sleep\<close> raises.\<close>

lemma sound_pause:
  assumes "sound_polling P C (E # Es)"
  shows "uniform (POLL_INTERVAL_MIN C) (POLL_INTERVAL_MAX C) (random E) = Inr (pause C E)"
    and "0 \<le> pause C E" and "pause C E \<le> sleep_max P"
    and "sleep P (pause C E) w = Inr (slept (pause C E) w)"
proof -
  let ?a = "POLL_INTERVAL_MIN C" and ?b = "POLL_INTERVAL_MAX C"
  from assms have c: "0 \<le> ?a" "0 \<le> ?b" "of_int ?a \<le> sleep_max P" "of_int ?b \<le> sleep_max P"
    "sleep_max P < of_int float_overflow" and r: "0 \<le> random E" "random E \<le> 1"
    by (simp_all add: sound_polling_def)
  from c have "(of_int ?a :: rat) < of_int float_overflow" "(of_int ?b :: rat) < of_int float_overflow"
    by linarith+
  then have small: "?a < float_overflow" "?b < float_overflow" by simp_all
  with c(1,2) have "\<bar>?b - ?a\<bar> < float_overflow" "\<bar>?a\<bar> < float_overflow" by linarith+
  then show u: "uniform ?a ?b (random E) = Inr (pause C E)" by (rule uniform_pause)
  have "(0::rat) \<le> min (of_int ?a) (of_int ?b)" using c(1,2) by simp
  with pause_bounds(1) [OF r, of C] show p0: "0 \<le> pause C E" by linarith
  have "max (of_int ?a) (of_int ?b) \<le> sleep_max P" using c(3,4) by simp
  with pause_bounds(2) [OF r, of C] show p1: "pause C E \<le> sleep_max P" by linarith
  from p0 p1 show "sleep P (pause C E) w = Inr (slept (pause C E) w)"
    by (simp add: sleep_def)
qed

lemma main_loop_step:
  assumes "sound_polling P C (E # Es)"
  shows "main_loop P C (E # Es) st =
           (if signalled E
            then (Exited,
                  log_line (''Exit. CSV log at:'' @ '' '' @ LOG_CSV_PATH C)
                    (stop_signal (slept (pause C E) (fst (cycle P C E st)))),
                  snd (cycle P C E st))
            else main_loop P C Es (slept (pause C E) (fst (cycle P C E st)), snd (cycle P C E st)))"
proof -
  obtain w fl where st: "st = (w, fl)" by (cases st)
  obtain w1 fl1 where c: "cycle P C E (w, fl) = (w1, fl1)" by (cases "cycle P C E (w, fl)")
  show ?thesis using c sound_pause(1) [OF assms] sound_pause(4) [OF assms, of w1]
    by (simp add: st del: cycle.simps)
qed

text \<open>
  A pause that \<^verbatim>\<open>time.sleep\<close> refuses ends the run: the exception is not caught.
\<close>

lemma main_loop_negative_pause:
  assumes "uniform (POLL_INTERVAL_MIN C) (POLL_INTERVAL_MAX C) (random E) = Inr d"
      and "d < 0" and "\<bar>d\<bar> \<le> sleep_max P"
  shows "fst (main_loop P C (E # Es) st) = Crashed (Exn ValueError ''sleep length must be non-negative'')"
proof -
  obtain w fl where st: "st = (w, fl)" by (cases st)
  obtain w1 fl1 where c: "cycle P C E (w, fl) = (w1, fl1)" by (cases "cycle P C E (w, fl)")
  show ?thesis using assms c by (simp add: st sleep_def del: cycle.simps)
qed

lemma main_loop_long_pause:
  assumes "uniform (POLL_INTERVAL_MIN C) (POLL_INTERVAL_MAX C) (random E) = Inr d"
      and "sleep_max P < \<bar>d\<bar>"
  shows "fst (main_loop P C (E # Es) st) = Crashed (Exn OverflowError (sleep_overflow_text P))"
proof -
  obtain w fl where st: "st = (w, fl)" by (cases st)
  obtain w1 fl1 where c: "cycle P C E (w, fl) = (w1, fl1)" by (cases "cycle P C E (w, fl)")
  show ?thesis using assms c by (simp add: st sleep_def del: cycle.simps)
qed

lemma main_loop_outcome:
  assumes "sound_polling P C Es"
  shows "fst (main_loop P C Es st) = (if \<exists>E \<in> set Es. signalled E then Exited else Running)"
  using assms
proof (induction Es arbitrary: st)
  case Nil
  show ?case by (cases st) simp
next
  case (Cons E Es)
  note step = main_loop_step [OF Cons.prems, of st]
  from Cons.prems have rest: "sound_polling P C Es" by (simp add: sound_polling_def)
  show ?case
  proof (cases "signalled E")
    case True
    then show ?thesis using step by simp
  next
    case False
    then show ?thesis using step Cons.IH [OF rest] by simp
  qed
qed

lemma main_loop_running:
  assumes "quiet_run P C Es"
  shows "main_loop P C Es st = (Running, cycles P C Es st)"
  using assms
proof (induction Es arbitrary: st)
  case Nil
  show ?case by (cases st) simp
next
  case (Cons E Es)
  then have sp: "sound_polling P C (E # Es)" and q: "\<not> signalled E" and rest: "quiet_run P C Es"
    by (simp_all add: quiet_run_def sound_polling_def)
  from main_loop_step [OF sp, of st] q Cons.IH [OF rest] show ?case
    by (simp del: cycle.simps)
qed

lemma main_loop_single:
  "bark_calls (fst (snd (main_loop P C [E] st))) = bark_calls (fst (cycle P C E st))"
  "csv_file (fst (snd (main_loop P C [E] st))) = csv_file (fst (cycle P C E st))"
  "snd (snd (main_loop P C [E] st)) = snd (cycle P C E st)"
proof -
  obtain w fl where st: "st = (w, fl)" by (cases st)
  obtain w1 fl1 where c: "cycle P C E (w, fl) = (w1, fl1)" by (cases "cycle P C E (w, fl)")
  show "bark_calls (fst (snd (main_loop P C [E] st))) = bark_calls (fst (cycle P C E st))"
    using c by (simp add: st sleep_def stop_signal_def del: cycle.simps split: sum.splits)
  show "csv_file (fst (snd (main_loop P C [E] st))) = csv_file (fst (cycle P C E st))"
    using c by (simp add: st sleep_def stop_signal_def del: cycle.simps split: sum.splits)
  show "snd (snd (main_loop P C [E] st)) = snd (cycle P C E st)"
    using c by (simp add: st sleep_def stop_signal_def del: cycle.simps split: sum.splits)
qed

lemma ensure_log_fields [simp]:
  "console (ensure_log w) = console w"
  "posts (ensure_log w) = posts w"
  "sleeps (ensure_log w) = sleeps w"
  "bark_calls (ensure_log w) = bark_calls w"
  by (simp_all add: ensure_log_def split: option.splits)

lemma banner_fields [simp]:
  "csv_file (banner C w) = csv_file w"
  "posts (banner C w) = posts w"
  "sleeps (banner C w) = sleeps w"
  "bark_calls (banner C w) = bark_calls w"
  by (simp_all add: banner_def Let_def)

text \<open>An identifier that is a list or a dict cannot be a key: the pass stops at the record.\<close>

lemma detect_record_unhashable:
  assumes "key_of (store_id r) = None"
  shows "\<exists>rows'. detect_record P C utc kr r (w, fl, rows) = (Some (unhashable (store_id r)), w, fl, rows')"
  using assms by (simp add: Let_def)

lemma sample_fetched:
  "fetched sample_config (sample_env (sample_reply [sample_store n d])) [sample_record n d]"
  by (simp add: fetched_def sample_env_def sample_reply_def sample_config_def parse_stores_def
                py_or_def store_record_def py_get_def sample_store_def sample_record_def)

lemma sample_pass_fetched: "fetched sample_config (sample_pass d) [sample_record ''R764'' d]"
  unfolding sample_pass_def by (rule sample_fetched)

lemma sample_pass_fields [simp]:
  "append_failure (sample_pass d) = None"
  "signalled (sample_pass d) = False"
  "random (sample_pass d) = 1 / 2"
  by (simp_all add: sample_pass_def sample_env_def)

lemma float_overflow_large: "10 ^ 300 < float_overflow"
  by (simp add: float_overflow_def)

lemma sample_sound_polling:
  "sound_polling sample_platform sample_config Es = list_all (\<lambda>E. 0 \<le> random E \<and> random E \<le> 1) Es"
proof -
  have "(9223372036 :: rat) < of_int (10 ^ 300)" by simp
  also have "\<dots> < of_int float_overflow"
    using float_overflow_large by (simp only: of_int_less_iff)
  finally show ?thesis
    by (simp add: sound_polling_def sample_config_def sample_platform_def)
qed

lemma sample_key: "key_of (store_id (sample_record (c # cs) d)) = Some (KStr (c # cs))"
  by (simp add: store_id_def sample_record_def py_or_def)

lemma cycles_snoc_single:
  assumes f: "fetched C E [r]" and k: "key_of (store_id r) = Some k"
  shows "snd (cycles P C (Es @ [E]) st) = (snd (cycles P C Es st))(k \<mapsto> is_available r)"
    and "bark_calls (fst (cycles P C (Es @ [E]) st)) =
           bark_calls (fst (cycles P C Es st))
           @ (if is_available r \<and> snd (cycles P C Es st) k \<noteq> Some True
              then [notification P (now_kr E) r] else [])"
    and "csv_file (fst (cycles P C (Es @ [E]) st)) =
           appended (append_failure E)
             (if is_available r then [row_cells (make_row C (now_utc E) (now_kr E) r)] else [])
             (fst (cycles P C Es st))"
proof -
  obtain w fl where s: "cycles P C Es st = (w, fl)" by (cases "cycles P C Es st")
  have step: "cycles P C (Es @ [E]) st =
                (slept (pause C E) (fst (cycle P C E (w, fl))), snd (cycle P C E (w, fl)))"
    by (simp add: cycles_append s del: cycle.simps)
  note c = cycle_single [OF f k, of P w fl]
  show "snd (cycles P C (Es @ [E]) st) = (snd (cycles P C Es st))(k \<mapsto> is_available r)"
    unfolding step s using c(1) by simp
  show "bark_calls (fst (cycles P C (Es @ [E]) st)) =
           bark_calls (fst (cycles P C Es st))
           @ (if is_available r \<and> snd (cycles P C Es st) k \<noteq> Some True
              then [notification P (now_kr E) r] else [])"
    unfolding step s using c(2) by simp
  show "csv_file (fst (cycles P C (Es @ [E]) st)) =
           appended (append_failure E)
             (if is_available r then [row_cells (make_row C (now_utc E) (now_kr E) r)] else [])
             (fst (cycles P C Es st))"
    unfolding step s using c(3) by simp
qed

text \<open>The exceptions that the three steps of the \<^verbatim>\<open>try\<close> block raise leave it.\<close>

lemma detect_loop_raises_TypeError:
  assumes "detect_loop P C utc kr res st = (Some e, st')"
  shows "exn_class_of e = TypeError"
  using assms
proof (induction res arbitrary: st)
  case Nil
  then show ?case by simp
next
  case (Cons r rs)
  obtain w fl rows where st: "st = (w, fl, rows)" by (cases st)
  show ?case
  proof (cases "key_of (store_id r)")
    case None
    with Cons.prems show ?thesis by (auto simp: st Let_def unhashable_def)
  next
    case (Some k)
    with Cons.prems obtain st1 where "detect_loop P C utc kr rs st1 = (Some e, st')"
      by (simp add: st Let_def)
    then show ?thesis by (rule Cons.IH)
  qed
qed

lemma detect_loop_unhashable:
  assumes "\<exists>r \<in> set res. key_of (store_id r) = None"
  shows "\<exists>e st'. detect_loop P C utc kr res st = (Some e, st')"
  using assms
proof (induction res arbitrary: st)
  case Nil
  then show ?case by simp
next
  case (Cons r rs)
  obtain w fl rows where st: "st = (w, fl, rows)" by (cases st)
  show ?case
  proof (cases "key_of (store_id r)")
    case None
    then show ?thesis by (simp add: st Let_def)
  next
    case (Some k)
    with Cons.prems have "\<exists>x \<in> set rs. key_of (store_id x) = None" by auto
    from Cons.IH [OF this] Some show ?thesis by (simp add: st Let_def)
  qed
qed

lemma try_body_fetch_raises:
  assumes "fst (fetch_availability C (apple_reply E) w) = Inl e"
  shows "fst (try_body P C E (w, fl)) = Some e"
  using assms by (cases "fetch_availability C (apple_reply E) w") simp

lemma try_body_detect_raises:
  assumes "fetched C E res" and "\<exists>r \<in> set res. key_of (store_id r) = None"
  shows "\<exists>e. fst (try_body P C E (w, fl)) = Some e \<and> exn_class_of e = TypeError"
proof -
  let ?st = "(log_line (brief_line P (now_kr E) res) (log_line (debug_line C E) w), fl, [])"
  from detect_loop_unhashable [OF assms(2), of P C "now_utc E" "now_kr E" ?st]
  obtain e w3 fl3 rows where d:
    "detect_loop P C (now_utc E) (now_kr E) res ?st = (Some e, w3, fl3, rows)"
    by (metis prod_cases3)
  from detect_loop_raises_TypeError [OF d] have "exn_class_of e = TypeError" .
  moreover have "fst (try_body P C E (w, fl)) = Some e"
    by (simp add: fetch_fetched [OF assms(1)] d)
  ultimately show ?thesis by blast
qed

lemma try_body_append_raises:
  assumes "fetched C E res" and "\<forall>r \<in> set res. key_of (store_id r) \<noteq> None"
      and "\<exists>r \<in> set res. is_available r" and "append_failure E = Some (e, n)"
  shows "fst (try_body P C E (w, fl)) = Some e"
proof -
  from assms(3) have "available_rows C E res \<noteq> []"
    by (auto simp: available_rows_def filter_empty_conv)
  with try_body_fetched [OF assms(1,2), of P w fl] assms(4) show ?thesis by auto
qed

section \<open>The properties\<close>

text \<open>
  C6. A store entry that is a JSON object and has no availability for the target part
  (\<^verbatim>\<open>partsAvailability\<close> missing or null, or the part missing or null in it) never
  makes the parse step raise: its record has \<^verbatim>\<open>pickupDisplay\<close> \<^verbatim>\<open>None\<close> and the empty
  string as quote, wherever the entry stands in the store list, so that the list
  fails to parse only when another entry does.
\<close>

theorem parse_tolerates_missing_availability:
  assumes "lacks_availability part kvs"
  shows "store_record part (JObj kvs) =
           Inr \<lparr>storeNumber = field kvs ''storeNumber'', storeName = field kvs ''storeName'',
                city = field kvs ''city'', pickupDisplay = JNull, quote = JStr []\<rparr>
         \<and> store_records part (pre @ JObj kvs # post) =
             bind_exn (store_records part pre) (\<lambda>as.
             bind_exn (store_records part post) (\<lambda>bs.
               Inr (as @ \<lparr>storeNumber = field kvs ''storeNumber'',
                          storeName = field kvs ''storeName'', city = field kvs ''city'',
                          pickupDisplay = JNull, quote = JStr []\<rparr> # bs)))"
proof -
  note rec = store_record_lacking [OF assms]
  have "store_records part (JObj kvs # post) =
          bind_exn (store_records part post) (\<lambda>bs.
            Inr (\<lparr>storeNumber = field kvs ''storeNumber'', storeName = field kvs ''storeName'',
                  city = field kvs ''city'', pickupDisplay = JNull, quote = JStr []\<rparr> # bs))"
    by (simp add: rec)
  then have "store_records part (pre @ JObj kvs # post) =
             bind_exn (store_records part pre) (\<lambda>as.
             bind_exn (store_records part post) (\<lambda>bs.
               Inr (as @ \<lparr>storeNumber = field kvs ''storeNumber'',
                          storeName = field kvs ''storeName'', city = field kvs ''city'',
                          pickupDisplay = JNull, quote = JStr []\<rparr> # bs)))"
    by (cases "store_records part pre"; cases "store_records part post")
       (simp_all add: store_records_append)
  with rec show ?thesis by simp
qed

theorem parse_tolerates_missing_availability_witness:
  "store_record ''MFYQ4KH/A''
     (JObj [(''storeNumber'', JStr ''R764''), (''storeName'', JStr ''Hongdae''),
            (''partsAvailability'', JNull)]) =
     Inr \<lparr>storeNumber = JStr ''R764'', storeName = JStr ''Hongdae'', city = JNull,
          pickupDisplay = JNull, quote = JStr []\<rparr>"
proof -
  have h: "lacks_availability ''MFYQ4KH/A''
             [(''storeNumber'', JStr ''R764''), (''storeName'', JStr ''Hongdae''),
              (''partsAvailability'', JNull)]"
    by (simp add: lacks_availability_def field_def)
  from parse_tolerates_missing_availability [OF h, of "[]" "[]"]
  show ?thesis by (simp add: field_def)
qed

text \<open>
  C7. \<^verbatim>\<open>ensure_log\<close> is idempotent: any number of calls after the first changes
  nothing, the header is written only when the file is absent (so once at most), and
  a file that exists keeps its lines as they are.
\<close>

theorem ensure_log_idempotent:
  "ensure_log (ensure_log w) = ensure_log w
   \<and> (ensure_log ^^ Suc n) w = ensure_log w
   \<and> csv_file (ensure_log w) = Some (case csv_file w of None \<Rightarrow> [header] | Some ls \<Rightarrow> ls)
   \<and> (case csv_file w of None \<Rightarrow> True | Some ls \<Rightarrow> ensure_log w = w)"
  by (simp add: ensure_log_twice ensure_log_funpow del: funpow.simps)
     (simp add: ensure_log_def split: option.splits)

theorem ensure_log_idempotent_witness:
  "csv_file ((ensure_log ^^ 3)
      \<lparr>console = [], csv_file = Some [header, [JStr ''a'']], posts = [], sleeps = [],
       bark_calls = []\<rparr>) = Some [header, [JStr ''a'']]
   \<and> csv_file ((ensure_log ^^ 3)
      \<lparr>console = [], csv_file = None, posts = [], sleeps = [], bark_calls = []\<rparr>) = Some [header]"
  using ensure_log_idempotent [of "\<lparr>console = [], csv_file = Some [header, [JStr ''a'']],
      posts = [], sleeps = [], bark_calls = []\<rparr>" 2]
    ensure_log_idempotent [of "\<lparr>console = [], csv_file = None,
      posts = [], sleeps = [], bark_calls = []\<rparr>" 2]
  by (simp add: numeral_3_eq_3 del: funpow.simps)

text \<open>
  C1. Within a pass, for every record that the loop over the fetched list reaches
  (the records before it and the record itself have hashable identifiers): the
  record is processed without an exception, \<^verbatim>\<open>bark_send\<close> is called for it if and
  only if its \<^verbatim>\<open>pickupDisplay\<close> is \<^verbatim>\<open>"available"\<close> and the flag stored for its
  identifier is not \<^verbatim>\<open>True\<close>, and afterwards the flag of the identifier is the
  boolean \<^verbatim>\<open>pickupDisplay == "available"\<close>.
\<close>

theorem notify_iff_newly_available:
  assumes "\<forall>x \<in> set pre. key_of (store_id x) \<noteq> None"
      and "key_of (store_id r) = Some k"
  shows "\<exists>w1 fl1 rows1 w2 rows2.
           detect_loop P C utc kr pre (w, fl, rows) = (None, w1, fl1, rows1)
         \<and> detect_record P C utc kr r (w1, fl1, rows1) =
             (None, w2, fl1(k \<mapsto> (pickupDisplay r = JStr ''available'')), rows2)
         \<and> detect_loop P C utc kr (pre @ r # post) (w, fl, rows) =
             detect_loop P C utc kr post
               (w2, fl1(k \<mapsto> (pickupDisplay r = JStr ''available'')), rows2)
         \<and> bark_calls w2 =
             bark_calls w1 @ (if pickupDisplay r = JStr ''available'' \<and> fl1 k \<noteq> Some True
                              then [notification P kr r] else [])"
proof -
  from detect_loop_hashable [OF assms(1), of P C utc kr w fl rows]
  obtain w1 where pre:
    "detect_loop P C utc kr pre (w, fl, rows) =
       (None, w1, fold record_flag pre fl, rows @ map (make_row C utc kr) (filter is_available pre))"
    by blast
  let ?fl1 = "fold record_flag pre fl"
  let ?rows1 = "rows @ map (make_row C utc kr) (filter is_available pre)"
  let ?w2 = "if is_available r \<and> ?fl1 k \<noteq> Some True
             then bark_send P C (push_title P r) (push_body P kr r) (Some product_url) w1 else w1"
  let ?rows2 = "if is_available r then ?rows1 @ [make_row C utc kr r] else ?rows1"
  have step: "detect_record P C utc kr r (w1, ?fl1, ?rows1) =
                (None, ?w2, ?fl1(k \<mapsto> is_available r), ?rows2)"
    by (rule detect_record_hashable [OF assms(2)])
  have whole: "detect_loop P C utc kr (pre @ r # post) (w, fl, rows) =
                 detect_loop P C utc kr post (?w2, ?fl1(k \<mapsto> is_available r), ?rows2)"
    by (simp add: detect_loop_append pre step del: detect_record.simps)
  have calls: "bark_calls ?w2 =
                 bark_calls w1 @ (if is_available r \<and> ?fl1 k \<noteq> Some True
                                  then [notification P kr r] else [])"
    by (simp add: notification_def)
  from pre step whole calls show ?thesis
    unfolding is_available_def by blast
qed

theorem notify_iff_newly_available_witness:
  "\<exists>w1 fl1 rows1 w2 rows2.
     detect_loop sample_platform sample_config ''u'' ''k'' [] (sample_world, Map.empty, []) =
       (None, w1, fl1, rows1)
   \<and> detect_record sample_platform sample_config ''u'' ''k'' (sample_record ''R764'' ''available'')
       (w1, fl1, rows1) =
       (None, w2,
        fl1(KStr ''R764'' \<mapsto> (pickupDisplay (sample_record ''R764'' ''available'') = JStr ''available'')),
        rows2)
   \<and> detect_loop sample_platform sample_config ''u'' ''k''
       ([] @ sample_record ''R764'' ''available'' # []) (sample_world, Map.empty, []) =
       detect_loop sample_platform sample_config ''u'' ''k'' []
         (w2,
          fl1(KStr ''R764'' \<mapsto> (pickupDisplay (sample_record ''R764'' ''available'') = JStr ''available'')),
          rows2)
   \<and> bark_calls w2 =
       bark_calls w1
       @ (if pickupDisplay (sample_record ''R764'' ''available'') = JStr ''available''
             \<and> fl1 (KStr ''R764'') \<noteq> Some True
          then [notification sample_platform ''k'' (sample_record ''R764'' ''available'')] else [])"
proof -
  have h1: "\<forall>x \<in> set []. key_of (store_id x) \<noteq> None" by simp
  have h2: "key_of (store_id (sample_record ''R764'' ''available'')) = Some (KStr ''R764'')"
    by (rule sample_key)
  show ?thesis by (rule notify_iff_newly_available [OF h1 h2])
qed

text \<open>
  C5. Cold start: \<^verbatim>\<open>main\<close> starts with empty flags, so in its first pass every
  record that reports \<^verbatim>\<open>"available"\<close> triggers exactly one call of \<^verbatim>\<open>bark_send\<close>,
  in the order of the list (the identifiers of the list are hashable and distinct).
\<close>

theorem cold_start_notifies_once:
  assumes "fetched C E res"
      and "\<forall>r \<in> set res. key_of (store_id r) \<noteq> None"
      and "distinct (map (\<lambda>r. key_of (store_id r)) res)"
  shows "bark_calls (fst (snd (main P C [E] w))) =
           bark_calls w
           @ map (notification P (now_kr E)) (filter (\<lambda>r. pickupDisplay r = JStr ''available'') res)"
proof -
  have "filter (newly Map.empty) res = filter is_available res"
    using assms(2) by (intro filter_cong) (auto simp: newly_def)
  moreover have "is_available = (\<lambda>r. pickupDisplay r = JStr ''available'')"
    by (simp add: fun_eq_iff is_available_def)
  ultimately have "notified Map.empty res = filter (\<lambda>r. pickupDisplay r = JStr ''available'') res"
    by (simp add: notified_distinct [OF assms(3)])
  with cycle_fetched(2) [OF assms(1,2), of P "ensure_log (banner C w)" Map.empty] show ?thesis
    by (simp add: main_def main_loop_single del: cycle.simps main_loop.simps)
qed

theorem cold_start_notifies_once_witness:
  "bark_calls (fst (snd (main sample_platform sample_config
      [sample_env (sample_reply [sample_store ''R764'' ''available''])] sample_world))) =
     bark_calls sample_world
     @ map (notification sample_platform
              (now_kr (sample_env (sample_reply [sample_store ''R764'' ''available'']))))
         (filter (\<lambda>r. pickupDisplay r = JStr ''available'') [sample_record ''R764'' ''available''])"
proof -
  have h2: "\<forall>r \<in> set [sample_record ''R764'' ''available'']. key_of (store_id r) \<noteq> None"
    by (simp add: sample_key)
  have h3: "distinct (map (\<lambda>r. key_of (store_id r)) [sample_record ''R764'' ''available''])"
    by simp
  show ?thesis by (rule cold_start_notifies_once [OF sample_fetched h2 h3])
qed

text \<open>
  C2. One location is observed in five consecutive passes, unavailable, available,
  available, unavailable, available, starting from empty flags; the loop keeps
  running and the CSV writes succeed. Then \<^verbatim>\<open>bark_send\<close> is called in the second and
  in the fifth pass and in no other, and a row is appended in the second, third and
  fifth pass and in no other.
\<close>

theorem five_cycle_transitions:
  assumes run: "quiet_run P C [E1, E2, E3, E4, E5]"
      and f: "fetched C E1 [r1]" "fetched C E2 [r2]" "fetched C E3 [r3]" "fetched C E4 [r4]"
             "fetched C E5 [r5]"
      and k: "key_of (store_id r1) = Some k" "key_of (store_id r2) = Some k"
             "key_of (store_id r3) = Some k" "key_of (store_id r4) = Some k"
             "key_of (store_id r5) = Some k"
      and a: "pickupDisplay r1 \<noteq> JStr ''available''" "pickupDisplay r2 = JStr ''available''"
             "pickupDisplay r3 = JStr ''available''" "pickupDisplay r4 \<noteq> JStr ''available''"
             "pickupDisplay r5 = JStr ''available''"
      and ok: "append_failure E2 = None" "append_failure E3 = None" "append_failure E5 = None"
  shows "bark_calls (fst (snd (main_loop P C [E1] (w, Map.empty)))) = bark_calls w
       \<and> bark_calls (fst (snd (main_loop P C [E1, E2] (w, Map.empty)))) =
           bark_calls w @ [notification P (now_kr E2) r2]
       \<and> bark_calls (fst (snd (main_loop P C [E1, E2, E3] (w, Map.empty)))) =
           bark_calls w @ [notification P (now_kr E2) r2]
       \<and> bark_calls (fst (snd (main_loop P C [E1, E2, E3, E4] (w, Map.empty)))) =
           bark_calls w @ [notification P (now_kr E2) r2]
       \<and> bark_calls (fst (snd (main_loop P C [E1, E2, E3, E4, E5] (w, Map.empty)))) =
           bark_calls w @ [notification P (now_kr E2) r2, notification P (now_kr E5) r5]
       \<and> csv_lines (fst (snd (main_loop P C [E1] (w, Map.empty)))) = csv_lines w
       \<and> csv_lines (fst (snd (main_loop P C [E1, E2] (w, Map.empty)))) =
           csv_lines w @ [row_cells (make_row C (now_utc E2) (now_kr E2) r2)]
       \<and> csv_lines (fst (snd (main_loop P C [E1, E2, E3] (w, Map.empty)))) =
           csv_lines w @ [row_cells (make_row C (now_utc E2) (now_kr E2) r2),
                          row_cells (make_row C (now_utc E3) (now_kr E3) r3)]
       \<and> csv_lines (fst (snd (main_loop P C [E1, E2, E3, E4] (w, Map.empty)))) =
           csv_lines w @ [row_cells (make_row C (now_utc E2) (now_kr E2) r2),
                          row_cells (make_row C (now_utc E3) (now_kr E3) r3)]
       \<and> csv_lines (fst (snd (main_loop P C [E1, E2, E3, E4, E5] (w, Map.empty)))) =
           csv_lines w @ [row_cells (make_row C (now_utc E2) (now_kr E2) r2),
                          row_cells (make_row C (now_utc E3) (now_kr E3) r3),
                          row_cells (make_row C (now_utc E5) (now_kr E5) r5)]"
proof -
  let ?st = "(w, Map.empty) :: world \<times> flags"
  have q: "quiet_run P C [E1]" "quiet_run P C [E1, E2]" "quiet_run P C [E1, E2, E3]"
    "quiet_run P C [E1, E2, E3, E4]"
    using run by (simp_all add: quiet_run_def sound_polling_def)
  have loop:
    "main_loop P C [E1] ?st = (Running, cycles P C [E1] ?st)"
    "main_loop P C [E1, E2] ?st = (Running, cycles P C [E1, E2] ?st)"
    "main_loop P C [E1, E2, E3] ?st = (Running, cycles P C [E1, E2, E3] ?st)"
    "main_loop P C [E1, E2, E3, E4] ?st = (Running, cycles P C [E1, E2, E3, E4] ?st)"
    "main_loop P C [E1, E2, E3, E4, E5] ?st = (Running, cycles P C [E1, E2, E3, E4, E5] ?st)"
    using q run by (simp_all only: main_loop_running)
  have av: "\<not> is_available r1" "is_available r2" "is_available r3" "\<not> is_available r4"
    "is_available r5"
    using a by (simp_all add: is_available_def)
  note c1 = cycles_snoc_single [OF f(1) k(1), of P "[]" ?st, simplified append_Nil]
  note c2 = cycles_snoc_single [OF f(2) k(2), of P "[E1]" ?st, simplified append.simps]
  note c3 = cycles_snoc_single [OF f(3) k(3), of P "[E1, E2]" ?st, simplified append.simps]
  note c4 = cycles_snoc_single [OF f(4) k(4), of P "[E1, E2, E3]" ?st, simplified append.simps]
  note c5 = cycles_snoc_single [OF f(5) k(5), of P "[E1, E2, E3, E4]" ?st, simplified append.simps]
  have fl: "snd (cycles P C [E1] ?st) k = Some False"
    "snd (cycles P C [E1, E2] ?st) k = Some True"
    "snd (cycles P C [E1, E2, E3] ?st) k = Some True"
    "snd (cycles P C [E1, E2, E3, E4] ?st) k = Some False"
    using av by (simp_all only: c1(1) c2(1) c3(1) c4(1) fun_upd_same)
  have b1: "bark_calls (fst (cycles P C [E1] ?st)) = bark_calls w"
    using c1(2) av by simp
  have b2: "bark_calls (fst (cycles P C [E1, E2] ?st)) = bark_calls w @ [notification P (now_kr E2) r2]"
    using c2(2) av fl(1) b1 by simp
  have b3: "bark_calls (fst (cycles P C [E1, E2, E3] ?st)) = bark_calls w @ [notification P (now_kr E2) r2]"
    using c3(2) av fl(2) b2 by simp
  have b4: "bark_calls (fst (cycles P C [E1, E2, E3, E4] ?st)) =
              bark_calls w @ [notification P (now_kr E2) r2]"
    using c4(2) av b3 by simp
  have b5: "bark_calls (fst (cycles P C [E1, E2, E3, E4, E5] ?st)) =
              bark_calls w @ [notification P (now_kr E2) r2, notification P (now_kr E5) r5]"
    using c5(2) av fl(4) b4 by simp
  have l1: "csv_lines (fst (cycles P C [E1] ?st)) = csv_lines w"
    using c1(3) av by (simp add: csv_lines_def appended_def)
  have l2: "csv_lines (fst (cycles P C [E1, E2] ?st)) =
              csv_lines w @ [row_cells (make_row C (now_utc E2) (now_kr E2) r2)]"
    using c2(3) av ok(1) l1 by (simp add: csv_lines_def appended_def)
  have l3: "csv_lines (fst (cycles P C [E1, E2, E3] ?st)) =
              csv_lines w @ [row_cells (make_row C (now_utc E2) (now_kr E2) r2),
                             row_cells (make_row C (now_utc E3) (now_kr E3) r3)]"
    using c3(3) av ok(2) l2 by (simp add: csv_lines_def appended_def)
  have l4: "csv_lines (fst (cycles P C [E1, E2, E3, E4] ?st)) =
              csv_lines w @ [row_cells (make_row C (now_utc E2) (now_kr E2) r2),
                             row_cells (make_row C (now_utc E3) (now_kr E3) r3)]"
    using c4(3) av l3 by (simp add: csv_lines_def appended_def)
  have l5: "csv_lines (fst (cycles P C [E1, E2, E3, E4, E5] ?st)) =
              csv_lines w @ [row_cells (make_row C (now_utc E2) (now_kr E2) r2),
                             row_cells (make_row C (now_utc E3) (now_kr E3) r3),
                             row_cells (make_row C (now_utc E5) (now_kr E5) r5)]"
    using c5(3) av ok(3) l4 by (simp add: csv_lines_def appended_def)
  show ?thesis
    unfolding loop snd_conv
    using b1 b2 b3 b4 b5 l1 l2 l3 l4 l5 by blast
qed

theorem five_cycle_transitions_witness:
  "bark_calls (fst (snd (main_loop sample_platform sample_config
      [sample_pass ''unavailable'', sample_pass ''available'', sample_pass ''available'',
       sample_pass ''unavailable'', sample_pass ''available''] (sample_world, Map.empty)))) =
     bark_calls sample_world
     @ [notification sample_platform (now_kr (sample_pass ''available''))
          (sample_record ''R764'' ''available''),
        notification sample_platform (now_kr (sample_pass ''available''))
          (sample_record ''R764'' ''available'')]
   \<and> csv_lines (fst (snd (main_loop sample_platform sample_config
      [sample_pass ''unavailable'', sample_pass ''available'', sample_pass ''available'',
       sample_pass ''unavailable'', sample_pass ''available''] (sample_world, Map.empty)))) =
     csv_lines sample_world
     @ [row_cells (make_row sample_config (now_utc (sample_pass ''available''))
                     (now_kr (sample_pass ''available'')) (sample_record ''R764'' ''available'')),
        row_cells (make_row sample_config (now_utc (sample_pass ''available''))
                     (now_kr (sample_pass ''available'')) (sample_record ''R764'' ''available'')),
        row_cells (make_row sample_config (now_utc (sample_pass ''available''))
                     (now_kr (sample_pass ''available'')) (sample_record ''R764'' ''available''))]"
proof -
  have run: "quiet_run sample_platform sample_config
               [sample_pass ''unavailable'', sample_pass ''available'', sample_pass ''available'',
                sample_pass ''unavailable'', sample_pass ''available'']"
    by (simp add: quiet_run_def sample_sound_polling)
  have no: "pickupDisplay (sample_record ''R764'' ''unavailable'') \<noteq> JStr ''available''"
    by (simp add: sample_record_def)
  have yes: "pickupDisplay (sample_record ''R764'' ''available'') = JStr ''available''"
    by (simp add: sample_record_def)
  have ok: "append_failure (sample_pass ''available'') = None" by simp
  from five_cycle_transitions [OF run sample_pass_fetched sample_pass_fetched sample_pass_fetched
      sample_pass_fetched sample_pass_fetched sample_key sample_key sample_key sample_key sample_key
      no yes yes no yes ok ok ok, where w = sample_world]
  show ?thesis by blast
qed

text \<open>
  C10. The flag of a location is written only in a pass whose fetched list holds a
  record of that location; the identifier is \<^verbatim>\<open>storeNumber\<close>, or \<^verbatim>\<open>storeName\<close> when
  \<^verbatim>\<open>storeNumber\<close> is absent (or otherwise false). A pass without such a record,
  failed requests included, leaves the flag as it was. So a store seen available,
  then missing from any number of passes, then available again triggers no call of
  \<^verbatim>\<open>bark_send\<close> when it is back.
\<close>

theorem absent_location_keeps_flag:
  assumes run: "quiet_run P C (E1 # Es @ [E3])"
      and absent: "\<forall>E \<in> set Es. \<forall>res. fetched C E res \<longrightarrow>
                     (\<forall>x \<in> set res. key_of (store_id x) \<noteq> Some k)"
      and first: "fetched C E1 [r1]" "key_of (store_id r1) = Some k"
                 "pickupDisplay r1 = JStr ''available''"
      and again: "fetched C E3 [r3]" "key_of (store_id r3) = Some k"
                 "pickupDisplay r3 = JStr ''available''"
  shows "(\<forall>E \<in> set Es. \<forall>st. snd (cycle P C E st) k = snd st k)
       \<and> snd (snd (main_loop P C (E1 # Es) (w, fl))) k = Some True
       \<and> bark_calls (fst (snd (main_loop P C (E1 # Es @ [E3]) (w, fl)))) =
           bark_calls (fst (snd (main_loop P C (E1 # Es) (w, fl))))
       \<and> store_id r1 = (if truthy (storeNumber r1) then storeNumber r1 else storeName r1)"
proof -
  have each: "\<forall>E \<in> set Es. \<forall>st. snd (cycle P C E st) k = snd st k"
    using absent cycle_other_key [of C _ k P] by blast
  have q: "quiet_run P C (E1 # Es)"
    using run by (simp add: quiet_run_def sound_polling_def)
  have loop1: "main_loop P C (E1 # Es) (w, fl) = (Running, cycles P C (E1 # Es) (w, fl))"
    by (rule main_loop_running [OF q])
  have loop2: "main_loop P C (E1 # Es @ [E3]) (w, fl) =
                 (Running, cycles P C (E1 # Es @ [E3]) (w, fl))"
    by (rule main_loop_running [OF run])
  have "snd (cycles P C ([] @ [E1]) (w, fl)) k = Some True"
    using cycles_snoc_single(1) [OF first(1,2), of P "[]" "(w, fl)"] first(3)
    by (simp add: is_available_def del: cycles.simps)
  then have one: "snd (cycles P C [E1] (w, fl)) k = Some True" by (simp del: cycles.simps)
  have "snd (cycles P C ([E1] @ Es) (w, fl)) k = snd (cycles P C [E1] (w, fl)) k"
    unfolding cycles_append [of P C "[E1]" Es] by (rule cycles_other_key [OF absent])
  with one have seen: "snd (cycles P C (E1 # Es) (w, fl)) k = Some True"
    by (simp del: cycles.simps)
  have "bark_calls (fst (cycles P C ((E1 # Es) @ [E3]) (w, fl))) =
          bark_calls (fst (cycles P C (E1 # Es) (w, fl)))"
    using cycles_snoc_single(2) [OF again(1,2), of P "E1 # Es" "(w, fl)"] seen
    by (simp del: cycles.simps)
  then have quiet: "bark_calls (fst (snd (main_loop P C (E1 # Es @ [E3]) (w, fl)))) =
           bark_calls (fst (snd (main_loop P C (E1 # Es) (w, fl))))"
    unfolding loop1 loop2 by (simp del: cycles.simps)
  have sid: "store_id r1 = (if truthy (storeNumber r1) then storeNumber r1 else storeName r1)"
    by (simp add: store_id_def py_or_def)
  from each seen quiet sid show ?thesis
    unfolding loop1 by simp
qed

theorem absent_location_keeps_flag_witness:
  "snd (snd (main_loop sample_platform sample_config
      [sample_pass ''available'', sample_env (sample_reply [])] (sample_world, Map.empty)))
     (KStr ''R764'') = Some True
   \<and> bark_calls (fst (snd (main_loop sample_platform sample_config
      (sample_pass ''available'' # [sample_env (sample_reply [])] @ [sample_pass ''available''])
      (sample_world, Map.empty)))) =
     bark_calls (fst (snd (main_loop sample_platform sample_config
      [sample_pass ''available'', sample_env (sample_reply [])] (sample_world, Map.empty))))"
proof -
  have run: "quiet_run sample_platform sample_config
               (sample_pass ''available'' # [sample_env (sample_reply [])] @ [sample_pass ''available''])"
    by (simp add: quiet_run_def sample_sound_polling sample_env_def)
  have absent: "\<forall>E \<in> set [sample_env (sample_reply [])]. \<forall>res. fetched sample_config E res \<longrightarrow>
                  (\<forall>x \<in> set res. key_of (store_id x) \<noteq> Some (KStr ''R764''))"
    by (simp add: fetched_def sample_env_def sample_reply_def parse_stores_def py_or_def)
  have yes: "pickupDisplay (sample_record ''R764'' ''available'') = JStr ''available''"
    by (simp add: sample_record_def)
  from absent_location_keeps_flag [OF run absent sample_pass_fetched sample_key yes
      sample_pass_fetched sample_key yes, where w = sample_world and fl = Map.empty]
  show ?thesis by blast
qed

text \<open>
  C8. The endpoint of a push: with a device key, the server base, a slash and the
  key; else, with a full endpoint configured, that endpoint; else nothing is posted,
  and the call only prints the line that Bark is not configured. In the first two
  cases exactly one request is posted.
\<close>

theorem bark_endpoint_precedence:
  "(BARK_DEVICE_KEY C \<noteq> [] \<longrightarrow>
      posts (bark_send P C t b u w) =
        posts w @ [(BARK_SERVER_BASE C @ ''/'' @ BARK_DEVICE_KEY C, bark_payload C t b u)])
   \<and> (BARK_DEVICE_KEY C = [] \<and> BARK_PUSH_ENDPOINT C \<noteq> [] \<longrightarrow>
      posts (bark_send P C t b u w) = posts w @ [(BARK_PUSH_ENDPOINT C, bark_payload C t b u)])
   \<and> (BARK_DEVICE_KEY C = [] \<and> BARK_PUSH_ENDPOINT C = [] \<longrightarrow>
      posts (bark_send P C t b u w) = posts w
      \<and> console (bark_send P C t b u w) = console w @ [not_configured_line]
      \<and> bark_send P C t b u w =
          log_line not_configured_line (w\<lparr>bark_calls := bark_calls w @ [(t, b, u)]\<rparr>))"
  by (simp add: bark_send_posts) (simp add: bark_send_def)

theorem bark_endpoint_precedence_witness:
  "posts (bark_send sample_platform sample_config ''t'' ''b'' None sample_world) =
     [(''https://api.day.app/devicekey'', bark_payload sample_config ''t'' ''b'' None)]
   \<and> posts (bark_send sample_platform
        (sample_config\<lparr>BARK_DEVICE_KEY := [], BARK_PUSH_ENDPOINT := ''https://push.example/abc''\<rparr>)
        ''t'' ''b'' None sample_world) =
     [(''https://push.example/abc'',
       bark_payload (sample_config\<lparr>BARK_DEVICE_KEY := [], BARK_PUSH_ENDPOINT := ''https://push.example/abc''\<rparr>)
         ''t'' ''b'' None)]
   \<and> bark_send sample_platform (sample_config\<lparr>BARK_DEVICE_KEY := []\<rparr>) ''t'' ''b'' None sample_world =
     log_line not_configured_line (sample_world\<lparr>bark_calls := [(''t'', ''b'', None)]\<rparr>)"
  using bark_endpoint_precedence [of sample_config sample_platform "''t''" "''b''" None sample_world]
    bark_endpoint_precedence [of "sample_config\<lparr>BARK_DEVICE_KEY := [],
        BARK_PUSH_ENDPOINT := ''https://push.example/abc''\<rparr>" sample_platform "''t''" "''b''" None
        sample_world]
    bark_endpoint_precedence [of "sample_config\<lparr>BARK_DEVICE_KEY := []\<rparr>" sample_platform
        "''t''" "''b''" None sample_world]
  by (simp add: sample_config_def sample_world_def)

text \<open>
  C4. One location is newly available, Bark is configured and the push fails (the
  request raises, or the reply is not a success). The failure stays inside
  \<^verbatim>\<open>bark_send\<close>: one request was posted and no second one, one warning line was
  printed, the \<^verbatim>\<open>try\<close> block ends without an exception, and the row of the location
  is appended to the CSV log.
\<close>

theorem push_failure_keeps_cycle:
  assumes "fetched C E [r]" "key_of (store_id r) = Some k"
      and "pickupDisplay r = JStr ''available''" "fl k \<noteq> Some True"
      and "BARK_DEVICE_KEY C \<noteq> [] \<or> BARK_PUSH_ENDPOINT C \<noteq> []"
      and "push_failed (bark_reply P (length (posts w)))"
      and "append_failure E = None"
  shows "\<exists>w' ep line.
           try_body P C E (w, fl) = (None, w', fl(k \<mapsto> True))
         \<and> cycle P C E (w, fl) = (w', fl(k \<mapsto> True))
         \<and> csv_file w' = Some (csv_lines w @ [row_cells (make_row C (now_utc E) (now_kr E) r)])
         \<and> posts w' =
             posts w @ [(ep, bark_payload C (push_title P r) (push_body P (now_kr E) r) (Some product_url))]
         \<and> is_warning line
         \<and> console w' = console w @ [debug_line C E, brief_line P (now_kr E) [r], line]"
proof -
  let ?w2 = "log_line (brief_line P (now_kr E) [r]) (log_line (debug_line C E) w)"
  let ?pl = "bark_payload C (push_title P r) (push_body P (now_kr E) r) (Some product_url)"
  let ?w0 = "?w2\<lparr>bark_calls := bark_calls ?w2
               @ [(push_title P r, push_body P (now_kr E) r, Some product_url)]\<rparr>"
  let ?sent = "bark_send P C (push_title P r) (push_body P (now_kr E) r) (Some product_url) ?w2"
  let ?w' = "?sent\<lparr>csv_file := Some (csv_lines w @ [row_cells (make_row C (now_utc E) (now_kr E) r)])\<rparr>"
  have av: "is_available r" using assms(3) by (simp add: is_available_def)
  have tb: "try_body P C E (w, fl) = (None, ?w', fl(k \<mapsto> True))"
    by (rule try_body_single_new [where fl = fl and k = k, OF assms(1,2) av assms(4,7)])
  then have cy: "cycle P C E (w, fl) = (?w', fl(k \<mapsto> True))"
    by (simp del: try_body.simps)
  define ep where "ep = (if BARK_DEVICE_KEY C \<noteq> [] then BARK_SERVER_BASE C @ ''/'' @ BARK_DEVICE_KEY C
                         else BARK_PUSH_ENDPOINT C)"
  have ep: "?sent = bark_post P ep ?pl ?w0"
    using assms(5) by (simp add: bark_send_def Let_def ep_def)
  have "push_failed (bark_reply P (length (posts ?w0)))" using assms(6) by simp
  from bark_post_failed [OF this, of ep ?pl] obtain line
    where line: "is_warning line" "console (bark_post P ep ?pl ?w0) = console ?w0 @ [line]"
    by blast
  have "posts ?w' = posts w @ [(ep, ?pl)]" by (simp add: ep)
  moreover have "console ?w' = console w @ [debug_line C E, brief_line P (now_kr E) [r], line]"
    using line(2) by (simp add: ep)
  moreover have "csv_file ?w' = Some (csv_lines w @ [row_cells (make_row C (now_utc E) (now_kr E) r)])"
    by simp
  ultimately show ?thesis using tb cy line(1) by blast
qed

theorem push_failure_keeps_cycle_witness:
  "\<exists>w' ep line.
     try_body sample_platform sample_config (sample_pass ''available'') (sample_world, Map.empty) =
       (None, w', [KStr ''R764'' \<mapsto> True])
   \<and> cycle sample_platform sample_config (sample_pass ''available'') (sample_world, Map.empty) =
       (w', [KStr ''R764'' \<mapsto> True])
   \<and> csv_file w' =
       Some (csv_lines sample_world
             @ [row_cells (make_row sample_config (now_utc (sample_pass ''available''))
                             (now_kr (sample_pass ''available''))
                             (sample_record ''R764'' ''available''))])
   \<and> posts w' =
       posts sample_world
       @ [(ep, bark_payload sample_config
                 (push_title sample_platform (sample_record ''R764'' ''available''))
                 (push_body sample_platform (now_kr (sample_pass ''available''))
                    (sample_record ''R764'' ''available''))
                 (Some product_url))]
   \<and> is_warning line
   \<and> console w' =
       console sample_world
       @ [debug_line sample_config (sample_pass ''available''),
          brief_line sample_platform (now_kr (sample_pass ''available''))
            [sample_record ''R764'' ''available''],
          line]"
proof -
  have yes: "pickupDisplay (sample_record ''R764'' ''available'') = JStr ''available''"
    by (simp add: sample_record_def)
  have new: "Map.empty (KStr ''R764'') \<noteq> Some True" by simp
  have conf: "BARK_DEVICE_KEY sample_config \<noteq> [] \<or> BARK_PUSH_ENDPOINT sample_config \<noteq> []"
    by (simp add: sample_config_def)
  have fails: "push_failed (bark_reply sample_platform (length (posts sample_world)))"
    by (simp add: push_failed_def sample_platform_def)
  have ok: "append_failure (sample_pass ''available'') = None" by simp
  show ?thesis
    by (rule push_failure_keeps_cycle [where fl = Map.empty and k = "KStr ''R764''",
          OF sample_pass_fetched sample_key yes new conf fails ok])
qed

text \<open>
  C9. When the fetch of a pass raises (the request fails, the status is an error
  status, the body is not JSON, or the decoded body has an unexpected shape), the
  pass prints exactly one line that starts with \<^verbatim>\<open>[WARN]\<close>, the line of the handler
  that catches the exception, and leaves the flags as they were. The lines of the
  pass are listed: a \<^verbatim>\<open>[DEBUG]\<close> line once a response has arrived, and before the
  warning an \<^verbatim>\<open>[ERROR]\<close> line when the body is not JSON.
\<close>

theorem fetch_error_single_warning:
  assumes "fst (fetch_availability C (apple_reply E) w) = Inl e"
  shows "length (filter is_warning (new_lines w (fst (cycle P C E (w, fl))))) = 1
       \<and> snd (cycle P C E (w, fl)) = fl
       \<and> new_lines w (fst (cycle P C E (w, fl))) =
           (case apple_reply E of
              Inl e' \<Rightarrow> [handler_line e']
            | Inr r \<Rightarrow>
                if 400 \<le> status_code r \<and> status_code r < 600
                then [http_debug_line C r, ''[WARN] HTTP error: '' @ error_text r]
                else (case json_result r of
                        Inl e' \<Rightarrow>
                          [http_debug_line C r]
                          @ (if is_JSONDecodeError e' then [json_failed_line r] else [])
                          @ [handler_line e']
                      | Inr data \<Rightarrow> [http_debug_line C r, handler_line e]))"
proof -
  obtain w1 where fe: "fetch_availability C (apple_reply E) w = (Inl e, w1)"
    using assms by (cases "fetch_availability C (apple_reply E) w") simp
  have cy: "cycle P C E (w, fl) = (log_line (handler_line e) w1, fl)"
    by (rule cycle_fetch_error [OF fe])
  show ?thesis
  proof (cases "apple_reply E")
    case (Inl e')
    with fe have "e = e'" "w1 = w" by (simp_all add: fetch_availability_def)
    with cy Inl show ?thesis
      by (simp add: new_lines_def is_warning_handler_line del: cycle.simps)
  next
    case (Inr r)
    show ?thesis
    proof (cases "400 \<le> status_code r \<and> status_code r < 600")
      case True
      with fe Inr have "e = Exn HTTPError (error_text r)" "w1 = log_line (http_debug_line C r) w"
        by (simp_all add: fetch_availability_def Let_def)
      with cy Inr True show ?thesis
        by (simp add: new_lines_def handler_line_def is_HTTPError_def is_warning_def
                      http_debug_line_def del: cycle.simps)
    next
      case False
      then have nf: "(400 \<le> status_code r \<and> status_code r < 600) = False" by simp
      show ?thesis
      proof (cases "json_result r")
        case bad: (Inl e')
        with fe Inr False have "e = e'"
          "w1 = (if is_JSONDecodeError e
                 then log_line (json_failed_line r) (log_line (http_debug_line C r) w)
                 else log_line (http_debug_line C r) w)"
          by (auto simp: fetch_availability_def Let_def)
        with cy Inr bad show ?thesis
          by (simp add: nf new_lines_def is_warning_handler_line not_warning_lines del: cycle.simps)
      next
        case good: (Inr data)
        with fe Inr False have "w1 = log_line (http_debug_line C r) w"
          by (simp add: fetch_availability_def Let_def)
        then show ?thesis using cy Inr good
          by (simp add: nf new_lines_def is_warning_handler_line not_warning_lines del: cycle.simps)
      qed
    qed
  qed
qed

theorem fetch_error_single_warning_witness:
  "length (filter is_warning (new_lines sample_world
      (fst (cycle sample_platform sample_config
         (sample_env (Inr \<lparr>status_code = 200, resp_text = ''<html>'',
                           json_result = Inl (Exn RequestsJSONDecodeError ''Expecting value''),
                           error_text = []\<rparr>))
         (sample_world, Map.empty))))) = 1
   \<and> new_lines sample_world
      (fst (cycle sample_platform sample_config
         (sample_env (Inr \<lparr>status_code = 200, resp_text = ''<html>'',
                           json_result = Inl (Exn RequestsJSONDecodeError ''Expecting value''),
                           error_text = []\<rparr>))
         (sample_world, Map.empty))) =
     [http_debug_line sample_config
        \<lparr>status_code = 200, resp_text = ''<html>'',
         json_result = Inl (Exn RequestsJSONDecodeError ''Expecting value''), error_text = []\<rparr>,
      ''[ERROR] JSON parse failed. First 300 chars: <html>'',
      ''[WARN] Network exception: Expecting value'']"
proof -
  have h: "fst (fetch_availability sample_config
             (apple_reply (sample_env (Inr \<lparr>status_code = 200, resp_text = ''<html>'',
                           json_result = Inl (Exn RequestsJSONDecodeError ''Expecting value''),
                           error_text = []\<rparr>))) sample_world) =
           Inl (Exn RequestsJSONDecodeError ''Expecting value'')"
    by (simp add: fetch_availability_def sample_env_def Let_def)
  note th = fetch_error_single_warning [OF h, of sample_platform Map.empty]
  have one: "length (filter is_warning (new_lines sample_world
      (fst (cycle sample_platform sample_config
         (sample_env (Inr \<lparr>status_code = 200, resp_text = ''<html>'',
                           json_result = Inl (Exn RequestsJSONDecodeError ''Expecting value''),
                           error_text = []\<rparr>))
         (sample_world, Map.empty))))) = 1"
    by (rule conjunct1 [OF th])
  have lines: "new_lines sample_world
      (fst (cycle sample_platform sample_config
         (sample_env (Inr \<lparr>status_code = 200, resp_text = ''<html>'',
                           json_result = Inl (Exn RequestsJSONDecodeError ''Expecting value''),
                           error_text = []\<rparr>))
         (sample_world, Map.empty))) =
     [http_debug_line sample_config
        \<lparr>status_code = 200, resp_text = ''<html>'',
         json_result = Inl (Exn RequestsJSONDecodeError ''Expecting value''), error_text = []\<rparr>,
      ''[ERROR] JSON parse failed. First 300 chars: <html>'',
      ''[WARN] Network exception: Expecting value'']"
    unfolding conjunct2 [OF conjunct2 [OF th]]
    by (simp add: sample_env_def is_JSONDecodeError_def json_failed_line_def handler_line_def
                  is_HTTPError_def is_RequestException_def)
  from one lines show ?thesis by (rule conjI)
qed

text \<open>
  C3. An exception raised by the fetch, by the detection loop or by the append to
  the log leaves the \<^verbatim>\<open>try\<close> block and is caught by the handler of its class,
  which prints one warning line: HTTP error for \<^verbatim>\<open>HTTPError\<close>, network exception
  for the other request exceptions, unknown exception for everything else; the pass
  ends normally. The sleep is outside the \<^verbatim>\<open>try\<close> block: with poll bounds that are
  not negative and not beyond what \<^verbatim>\<open>time.sleep\<close> accepts, it lies between the
  bounds and does not raise, the loop goes on with the next pass unless a signal has
  set the stop flag, no run ends by an exception, and a run returns from \<^verbatim>\<open>main\<close>
  exactly when a signal has arrived.
\<close>

theorem loop_survives_exceptions:
  "(\<forall>e. fst (fetch_availability C (apple_reply E) w) = Inl e \<longrightarrow>
      fst (try_body P C E (w, fl)) = Some e)
   \<and> (\<forall>res. fetched C E res \<and> (\<exists>r \<in> set res. key_of (store_id r) = None) \<longrightarrow>
        (\<exists>e. fst (try_body P C E (w, fl)) = Some e \<and> exn_class_of e = TypeError))
   \<and> (\<forall>res e n. fetched C E res \<and> (\<forall>r \<in> set res. key_of (store_id r) \<noteq> None)
          \<and> (\<exists>r \<in> set res. pickupDisplay r = JStr ''available'')
          \<and> append_failure E = Some (e, n) \<longrightarrow>
        fst (try_body P C E (w, fl)) = Some e)
   \<and> (\<forall>e w1 fl1. try_body P C E (w, fl) = (Some e, w1, fl1) \<longrightarrow>
        cycle P C E (w, fl) =
          (log_line
             ((case exn_class_of e of
                 HTTPError \<Rightarrow> ''[WARN] HTTP error: ''
               | TransportError \<Rightarrow> ''[WARN] Network exception: ''
               | RequestsJSONDecodeError \<Rightarrow> ''[WARN] Network exception: ''
               | JSONDecodeError \<Rightarrow> ''[WARN] Unknown exception: ''
               | AttributeError \<Rightarrow> ''[WARN] Unknown exception: ''
               | TypeError \<Rightarrow> ''[WARN] Unknown exception: ''
               | ValueError \<Rightarrow> ''[WARN] Unknown exception: ''
               | OverflowError \<Rightarrow> ''[WARN] Unknown exception: ''
               | OSError \<Rightarrow> ''[WARN] Unknown exception: '') @ exn_text e) w1,
           fl1))
   \<and> (sound_polling P C (E # Es) \<longrightarrow>
        (\<not> signalled E \<longrightarrow>
           main_loop P C (E # Es) (w, fl) =
             main_loop P C Es
               (slept (pause C E) (fst (cycle P C E (w, fl))), snd (cycle P C E (w, fl))))
        \<and> min (of_int (POLL_INTERVAL_MIN C)) (of_int (POLL_INTERVAL_MAX C)) \<le> pause C E
        \<and> pause C E \<le> max (of_int (POLL_INTERVAL_MIN C)) (of_int (POLL_INTERVAL_MAX C))
        \<and> (\<forall>e. fst (main_loop P C (E # Es) (w, fl)) \<noteq> Crashed e)
        \<and> (fst (main_loop P C (E # Es) (w, fl)) = Exited
             \<longleftrightarrow> (\<exists>E' \<in> set (E # Es). signalled E')))"
proof -
  have fetch: "\<forall>e. fst (fetch_availability C (apple_reply E) w) = Inl e \<longrightarrow>
      fst (try_body P C E (w, fl)) = Some e"
    using try_body_fetch_raises by blast
  have detect: "\<forall>res. fetched C E res \<and> (\<exists>r \<in> set res. key_of (store_id r) = None) \<longrightarrow>
        (\<exists>e. fst (try_body P C E (w, fl)) = Some e \<and> exn_class_of e = TypeError)"
    using try_body_detect_raises by blast
  have append: "\<forall>res e n. fetched C E res \<and> (\<forall>r \<in> set res. key_of (store_id r) \<noteq> None)
          \<and> (\<exists>r \<in> set res. pickupDisplay r = JStr ''available'')
          \<and> append_failure E = Some (e, n) \<longrightarrow>
        fst (try_body P C E (w, fl)) = Some e"
    using try_body_append_raises [of C E _ _ _ P w fl] unfolding is_available_def by blast
  have caught: "\<forall>e w1 fl1. try_body P C E (w, fl) = (Some e, w1, fl1) \<longrightarrow>
        cycle P C E (w, fl) =
          (log_line
             ((case exn_class_of e of
                 HTTPError \<Rightarrow> ''[WARN] HTTP error: ''
               | TransportError \<Rightarrow> ''[WARN] Network exception: ''
               | RequestsJSONDecodeError \<Rightarrow> ''[WARN] Network exception: ''
               | JSONDecodeError \<Rightarrow> ''[WARN] Unknown exception: ''
               | AttributeError \<Rightarrow> ''[WARN] Unknown exception: ''
               | TypeError \<Rightarrow> ''[WARN] Unknown exception: ''
               | ValueError \<Rightarrow> ''[WARN] Unknown exception: ''
               | OverflowError \<Rightarrow> ''[WARN] Unknown exception: ''
               | OSError \<Rightarrow> ''[WARN] Unknown exception: '') @ exn_text e) w1,
           fl1)"
  proof (intro allI impI)
    fix e w1 fl1
    assume t: "try_body P C E (w, fl) = (Some e, w1, fl1)"
    have "handler_line e =
            (case exn_class_of e of
                 HTTPError \<Rightarrow> ''[WARN] HTTP error: ''
               | TransportError \<Rightarrow> ''[WARN] Network exception: ''
               | RequestsJSONDecodeError \<Rightarrow> ''[WARN] Network exception: ''
               | JSONDecodeError \<Rightarrow> ''[WARN] Unknown exception: ''
               | AttributeError \<Rightarrow> ''[WARN] Unknown exception: ''
               | TypeError \<Rightarrow> ''[WARN] Unknown exception: ''
               | ValueError \<Rightarrow> ''[WARN] Unknown exception: ''
               | OverflowError \<Rightarrow> ''[WARN] Unknown exception: ''
               | OSError \<Rightarrow> ''[WARN] Unknown exception: '') @ exn_text e"
      by (cases "exn_class_of e")
         (simp_all add: handler_line_def is_HTTPError_def is_RequestException_def)
    with t show "cycle P C E (w, fl) =
          (log_line
             ((case exn_class_of e of
                 HTTPError \<Rightarrow> ''[WARN] HTTP error: ''
               | TransportError \<Rightarrow> ''[WARN] Network exception: ''
               | RequestsJSONDecodeError \<Rightarrow> ''[WARN] Network exception: ''
               | JSONDecodeError \<Rightarrow> ''[WARN] Unknown exception: ''
               | AttributeError \<Rightarrow> ''[WARN] Unknown exception: ''
               | TypeError \<Rightarrow> ''[WARN] Unknown exception: ''
               | ValueError \<Rightarrow> ''[WARN] Unknown exception: ''
               | OverflowError \<Rightarrow> ''[WARN] Unknown exception: ''
               | OSError \<Rightarrow> ''[WARN] Unknown exception: '') @ exn_text e) w1,
           fl1)"
      by (simp del: try_body.simps)
  qed
  have rest: "(\<not> signalled E \<longrightarrow>
           main_loop P C (E # Es) (w, fl) =
             main_loop P C Es
               (slept (pause C E) (fst (cycle P C E (w, fl))), snd (cycle P C E (w, fl))))
        \<and> min (of_int (POLL_INTERVAL_MIN C)) (of_int (POLL_INTERVAL_MAX C)) \<le> pause C E
        \<and> pause C E \<le> max (of_int (POLL_INTERVAL_MIN C)) (of_int (POLL_INTERVAL_MAX C))
        \<and> (\<forall>e. fst (main_loop P C (E # Es) (w, fl)) \<noteq> Crashed e)
        \<and> (fst (main_loop P C (E # Es) (w, fl)) = Exited
             \<longleftrightarrow> (\<exists>E' \<in> set (E # Es). signalled E'))"
    if sp: "sound_polling P C (E # Es)"
  proof -
    from sp have r: "0 \<le> random E" "random E \<le> 1"
      by (simp_all add: sound_polling_def)
    have next_pass: "\<not> signalled E \<longrightarrow>
            main_loop P C (E # Es) (w, fl) =
              main_loop P C Es
                (slept (pause C E) (fst (cycle P C E (w, fl))), snd (cycle P C E (w, fl)))"
      using main_loop_step [OF sp, of "(w, fl)"] by simp
    note out = main_loop_outcome [OF sp, of "(w, fl)"]
    have no_crash: "\<forall>e. fst (main_loop P C (E # Es) (w, fl)) \<noteq> Crashed e"
      unfolding out by simp
    have halts: "fst (main_loop P C (E # Es) (w, fl)) = Exited
                   \<longleftrightarrow> (\<exists>E' \<in> set (E # Es). signalled E')"
      unfolding out by simp
    from next_pass pause_bounds [OF r, of C] no_crash halts show ?thesis by blast
  qed
  from fetch detect append caught rest show ?thesis by blast
qed

theorem loop_survives_exceptions_witness:
  "cycle sample_platform sample_config
     (sample_env (Inl (Exn TransportError ''timed out''))) (sample_world, Map.empty) =
     (log_line ''[WARN] Network exception: timed out'' sample_world, Map.empty)
   \<and> fst (main_loop sample_platform sample_config
        [sample_env (Inl (Exn TransportError ''timed out'')), sample_pass ''available'']
        (sample_world, Map.empty)) = Running
   \<and> main_loop sample_platform sample_config
        [sample_env (Inl (Exn TransportError ''timed out'')), sample_pass ''available'']
        (sample_world, Map.empty) =
     main_loop sample_platform sample_config [sample_pass ''available'']
        (slept (25 / 2) (log_line ''[WARN] Network exception: timed out'' sample_world), Map.empty)"
proof -
  let ?E = "sample_env (Inl (Exn TransportError ''timed out''))"
  let ?Es = "[sample_pass ''available'']"
  have t: "try_body sample_platform sample_config ?E (sample_world, Map.empty) =
             (Some (Exn TransportError ''timed out''), sample_world, Map.empty)"
    by (simp add: fetch_availability_def sample_env_def)
  have sp: "sound_polling sample_platform sample_config (?E # ?Es)"
    by (simp add: sample_sound_polling sample_env_def)
  have ns: "\<not> signalled ?E" by (simp add: sample_env_def)
  have pz: "pause sample_config ?E = 25 / 2"
    by (simp add: pause_def sample_config_def sample_env_def)
  note th = loop_survives_exceptions [of sample_config ?E sample_world sample_platform Map.empty ?Es]
  from th t have c: "cycle sample_platform sample_config ?E (sample_world, Map.empty) =
      (log_line ''[WARN] Network exception: timed out'' sample_world, Map.empty)"
    by simp
  from th sp ns have step: "main_loop sample_platform sample_config (?E # ?Es)
        (sample_world, Map.empty) =
      main_loop sample_platform sample_config ?Es
        (slept (pause sample_config ?E)
           (fst (cycle sample_platform sample_config ?E (sample_world, Map.empty))),
         snd (cycle sample_platform sample_config ?E (sample_world, Map.empty)))"
    by blast
  from th sp have nc: "\<forall>e. fst (main_loop sample_platform sample_config (?E # ?Es)
        (sample_world, Map.empty)) \<noteq> Crashed e"
    and ex: "fst (main_loop sample_platform sample_config (?E # ?Es)
        (sample_world, Map.empty)) = Exited \<longleftrightarrow> (\<exists>E' \<in> set (?E # ?Es). signalled E')"
    by blast+
  from ex ns have "fst (main_loop sample_platform sample_config (?E # ?Es)
        (sample_world, Map.empty)) \<noteq> Exited"
    by simp
  with nc have running: "fst (main_loop sample_platform sample_config (?E # ?Es)
        (sample_world, Map.empty)) = Running"
    by (cases "fst (main_loop sample_platform sample_config (?E # ?Es)
        (sample_world, Map.empty))") simp_all
  from step have step': "main_loop sample_platform sample_config (?E # ?Es)
        (sample_world, Map.empty) =
      main_loop sample_platform sample_config ?Es
        (slept (25 / 2) (log_line ''[WARN] Network exception: timed out'' sample_world), Map.empty)"
    unfolding c pz fst_conv snd_conv .
  from c running step' show ?thesis by blast
qed

theorem loop_crash_counterexample:
  "\<not> signalled (sample_pass ''available'')
   \<and> fst (main_loop sample_platform
          (sample_config\<lparr>POLL_INTERVAL_MIN := - 5, POLL_INTERVAL_MAX := - 1\<rparr>)
          [sample_pass ''available''] (sample_world, Map.empty)) =
       Crashed (Exn ValueError ''sleep length must be non-negative'')
   \<and> fst (main_loop sample_platform
          (sample_config\<lparr>POLL_INTERVAL_MIN := 10000000000, POLL_INTERVAL_MAX := 10000000000\<rparr>)
          [sample_pass ''available''] (sample_world, Map.empty)) =
       Crashed (Exn OverflowError ''timestamp too large to convert to C _PyTime_t'')"
proof -
  have small: "\<not> float_overflow \<le> 10000000000" "\<not> float_overflow \<le> 5"
    "\<not> float_overflow \<le> 4" "\<not> float_overflow \<le> 0"
    using float_overflow_large by simp_all
  have u1: "uniform (POLL_INTERVAL_MIN (sample_config\<lparr>POLL_INTERVAL_MIN := - 5, POLL_INTERVAL_MAX := - 1\<rparr>))
              (POLL_INTERVAL_MAX (sample_config\<lparr>POLL_INTERVAL_MIN := - 5, POLL_INTERVAL_MAX := - 1\<rparr>))
              (random (sample_pass ''available'')) = Inr (- 3)"
    by (simp add: uniform_def small)
  have u2: "uniform (POLL_INTERVAL_MIN (sample_config\<lparr>POLL_INTERVAL_MIN := 10000000000, POLL_INTERVAL_MAX := 10000000000\<rparr>))
              (POLL_INTERVAL_MAX (sample_config\<lparr>POLL_INTERVAL_MIN := 10000000000, POLL_INTERVAL_MAX := 10000000000\<rparr>))
              (random (sample_pass ''available'')) = Inr 10000000000"
    by (simp add: uniform_def small)
  have a: "fst (main_loop sample_platform
          (sample_config\<lparr>POLL_INTERVAL_MIN := - 5, POLL_INTERVAL_MAX := - 1\<rparr>)
          [sample_pass ''available''] (sample_world, Map.empty)) =
       Crashed (Exn ValueError ''sleep length must be non-negative'')"
    by (rule main_loop_negative_pause [OF u1]) (simp_all add: sample_platform_def)
  have "fst (main_loop sample_platform
          (sample_config\<lparr>POLL_INTERVAL_MIN := 10000000000, POLL_INTERVAL_MAX := 10000000000\<rparr>)
          [sample_pass ''available''] (sample_world, Map.empty)) =
       Crashed (Exn OverflowError (sleep_overflow_text sample_platform))"
    by (rule main_loop_long_pause [OF u2]) (simp add: sample_platform_def)
  then have b: "fst (main_loop sample_platform
          (sample_config\<lparr>POLL_INTERVAL_MIN := 10000000000, POLL_INTERVAL_MAX := 10000000000\<rparr>)
          [sample_pass ''available''] (sample_world, Map.empty)) =
       Crashed (Exn OverflowError ''timestamp too large to convert to C _PyTime_t'')"
    by (simp add: sample_platform_def)
  have c: "\<not> signalled (sample_pass ''available'')" by simp
  from c a b show ?thesis by blast
qed

end
